theory Spec2Isabelle
  imports Main "HOL-Library.Word"
begin

unbundle bit_operations_syntax

section \<open>Python values\<close>

text \<open>
  A Python \<open>str\<close> is a sequence of Unicode code points, \<open>bytes\<close> a sequence of octets.
  Values whose type is only known at run time (what \<open>json.loads\<close> returns, what a caller
  passes where the annotation is not enforced) are \<open>pyval\<close>. A float is kept as the text
  of its literal: no operation of this program computes with one.
\<close>

type_synonym pystr = "nat list"
type_synonym byte = "8 word"
type_synonym bytes = "8 word list"

datatype pyval =
    PNone
  | PBool bool
  | PInt int
  | PFloat pystr
  | PStr pystr
  | PList "pyval list"
  | PDict "(pystr \<times> pyval) list"

datatype pyerr =
    TypeError
  | KeyError
  | AttributeError
  | NameError
  | UnicodeEncodeError
  | UnicodeDecodeError
  | JSONDecodeError
  | ValueError
  | RecursionError
  | OSError
  | SSLError
  | PyException

text \<open>An ASCII literal of the source as a \<open>str\<close>.\<close>

definition u :: "string \<Rightarrow> pystr" where
  "u s = map of_char s"

subsection \<open>\<open>str(int)\<close> and \<open>str.encode('utf-8')\<close>\<close>

function digits10 :: "nat \<Rightarrow> pystr" where
  "digits10 n = (if n < 10 then [48 + n] else digits10 (n div 10) @ [48 + n mod 10])"
  by pat_completeness auto
termination
  by (relation "measure id") auto

declare digits10.simps [simp del]

definition py_str_int :: "int \<Rightarrow> pystr" where
  "py_str_int i = (if i < 0 then 45 # digits10 (nat (- i)) else digits10 (nat i))"

text \<open>
  UTF-8 encoding of one code point. The surrogates U+D800..U+DFFF (and anything past
  U+10FFFF, which no \<open>str\<close> holds) have no encoding: \<open>encode\<close> raises UnicodeEncodeError.
\<close>

definition utf8_char :: "nat \<Rightarrow> bytes option" where
  "utf8_char c =
     (if c < 0x80 then Some [of_nat c]
      else if c < 0x800 then Some [of_nat (0xC0 + c div 64), of_nat (0x80 + c mod 64)]
      else if 0xD800 \<le> c \<and> c \<le> 0xDFFF then None
      else if c < 0x10000 then
        Some [of_nat (0xE0 + c div 4096), of_nat (0x80 + (c div 64) mod 64),
              of_nat (0x80 + c mod 64)]
      else if c < 0x110000 then
        Some [of_nat (0xF0 + c div 262144), of_nat (0x80 + (c div 4096) mod 64),
              of_nat (0x80 + (c div 64) mod 64), of_nat (0x80 + c mod 64)]
      else None)"

fun encode_utf8 :: "pystr \<Rightarrow> pyerr + bytes" where
  "encode_utf8 [] = Inr []"
| "encode_utf8 (c # cs) =
     (case utf8_char c of
        None \<Rightarrow> Inl UnicodeEncodeError
      | Some bs \<Rightarrow>
          (case encode_utf8 cs of Inl e \<Rightarrow> Inl e | Inr rest \<Rightarrow> Inr (bs @ rest)))"

section \<open>\<open>hashlib.sha256\<close>\<close>

text \<open>
  SHA-256 as FIPS 180-4 defines it, on 32-bit words. The round constants and the initial
  hash value are written in decimal.
\<close>

type_synonym w32 = "32 word"

definition sha256_K :: "w32 list" where
  "sha256_K =
    [1116352408, 1899447441, 3049323471, 3921009573, 961987163, 1508970993,
     2453635748, 2870763221, 3624381080, 310598401, 607225278, 1426881987,
     1925078388, 2162078206, 2614888103, 3248222580, 3835390401, 4022224774,
     264347078, 604807628, 770255983, 1249150122, 1555081692, 1996064986,
     2554220882, 2821834349, 2952996808, 3210313671, 3336571891, 3584528711,
     113926993, 338241895, 666307205, 773529912, 1294757372, 1396182291,
     1695183700, 1986661051, 2177026350, 2456956037, 2730485921, 2820302411,
     3259730800, 3345764771, 3516065817, 3600352804, 4094571909, 275423344,
     430227734, 506948616, 659060556, 883997877, 958139571, 1322822218,
     1537002063, 1747873779, 1955562222, 2024104815, 2227730452, 2361852424,
     2428436474, 2756734187, 3204031479, 3329325298]"

type_synonym sha_state = "w32 \<times> w32 \<times> w32 \<times> w32 \<times> w32 \<times> w32 \<times> w32 \<times> w32"

definition sha256_H0 :: sha_state where
  "sha256_H0 =
    (1779033703, 3144134277, 1013904242, 2773480762,
     1359893119, 2600822924, 528734635, 1541459225)"

definition Ch :: "w32 \<Rightarrow> w32 \<Rightarrow> w32 \<Rightarrow> w32" where
  "Ch x y z = (x AND y) XOR (NOT x AND z)"

definition Maj :: "w32 \<Rightarrow> w32 \<Rightarrow> w32 \<Rightarrow> w32" where
  "Maj x y z = (x AND y) XOR (x AND z) XOR (y AND z)"

definition bsig0 :: "w32 \<Rightarrow> w32" where
  "bsig0 x = word_rotr 2 x XOR word_rotr 13 x XOR word_rotr 22 x"

definition bsig1 :: "w32 \<Rightarrow> w32" where
  "bsig1 x = word_rotr 6 x XOR word_rotr 11 x XOR word_rotr 25 x"

definition ssig0 :: "w32 \<Rightarrow> w32" where
  "ssig0 x = word_rotr 7 x XOR word_rotr 18 x XOR drop_bit 3 x"

definition ssig1 :: "w32 \<Rightarrow> w32" where
  "ssig1 x = word_rotr 17 x XOR word_rotr 19 x XOR drop_bit 10 x"

definition be32 :: "w32 \<Rightarrow> bytes" where
  "be32 w = [ucast (drop_bit 24 w), ucast (drop_bit 16 w), ucast (drop_bit 8 w), ucast w]"

definition be64 :: "nat \<Rightarrow> bytes" where
  "be64 n = map (\<lambda>i. of_nat (n div 256 ^ i)) [7, 6, 5, 4, 3, 2, 1, 0]"

fun words_of :: "bytes \<Rightarrow> w32 list" where
  "words_of (a # b # c # d # rest) =
     (push_bit 24 (ucast a) OR push_bit 16 (ucast b) OR push_bit 8 (ucast c) OR ucast d)
       # words_of rest"
| "words_of _ = []"

fun sha256_schedule :: "nat \<Rightarrow> w32 list \<Rightarrow> w32 list" where
  "sha256_schedule 0 w = w"
| "sha256_schedule (Suc n) w =
     (let t = length w in
      sha256_schedule n
        (w @ [ssig1 (w ! (t - 2)) + w ! (t - 7) + ssig0 (w ! (t - 15)) + w ! (t - 16)]))"

definition sha256_round :: "sha_state \<Rightarrow> w32 \<times> w32 \<Rightarrow> sha_state" where
  "sha256_round s kw =
     (case s of (a, b, c, d, e, f, g, h) \<Rightarrow>
        let t1 = h + bsig1 e + Ch e f g + fst kw + snd kw;
            t2 = bsig0 a + Maj a b c
        in (t1 + t2, a, b, c, d + t1, e, f, g))"

definition sha256_add :: "sha_state \<Rightarrow> sha_state \<Rightarrow> sha_state" where
  "sha256_add s s' =
     (case s of (a, b, c, d, e, f, g, h) \<Rightarrow>
      case s' of (a', b', c', d', e', f', g', h') \<Rightarrow>
        (a + a', b + b', c + c', d + d', e + e', f + f', g + g', h + h'))"

definition sha256_block :: "sha_state \<Rightarrow> bytes \<Rightarrow> sha_state" where
  "sha256_block s blk =
     sha256_add s (foldl sha256_round s (zip sha256_K (sha256_schedule 48 (words_of blk))))"

definition sha256_pad :: "bytes \<Rightarrow> bytes" where
  "sha256_pad m =
     m @ [0x80] @ replicate ((64 - (length m + 9) mod 64) mod 64) 0 @ be64 (8 * length m)"

function sha256_blocks :: "sha_state \<Rightarrow> bytes \<Rightarrow> sha_state" where
  "sha256_blocks s m =
     (if length m < 64 then s else sha256_blocks (sha256_block s (take 64 m)) (drop 64 m))"
  by pat_completeness auto
termination
  by (relation "measure (\<lambda>(s, m). length m)") auto

declare sha256_blocks.simps [simp del]

definition sha256_digest :: "sha_state \<Rightarrow> bytes" where
  "sha256_digest s =
     (case s of (a, b, c, d, e, f, g, h) \<Rightarrow>
        be32 a @ be32 b @ be32 c @ be32 d @ be32 e @ be32 f @ be32 g @ be32 h)"

definition sha256 :: "bytes \<Rightarrow> bytes" where
  "sha256 m = sha256_digest (sha256_blocks sha256_H0 (sha256_pad m))"

section \<open>Diffie-Hellman key exchange (class \<open>DiffieHellman\<close>)\<close>

text \<open>The group parameters of the class: the 2048-bit MODP group of RFC 3526.\<close>

definition P :: int where
  "P = 0xFFFFFFFFFFFFFFFFC90FDAA22168C234C4C6628B80DC1CD129024E088A67CC74020BBEA63B139B22514A08798E3404DDEF9519B3CD3A431B302B0A6DF25F14374FE1356D6D51C245E485B576625E7EC6F44C42E9A637ED6B0BFF5CB6F406B7EDEE386BFB5A899FA5AE9F24117C4B1FE649286651ECE45B3DC2007CB8A163BF0598DA48361C55D39A69163FA8FD24CF5F83655D23DCA3AD961C62F356208552BB9ED529077096966D670C354E4ABC9804F1746C08CA18217C32905E462E36CE3BE39E772C180E86039B2783A2EC07A28FB5C55DF06F4C52C9DE2BCBF6955817183995497CEA956AE515D2261898FA051015728E5A8AACAA68FFFFFFFFFFFFFFFF"

definition G :: int where
  "G = 2"

record DiffieHellman =
  private_key :: nat
  public_key :: int
  shared_secret :: "int option"

text \<open>
  \<open>__init__\<close>. The argument is the draw \<open>secrets.randbelow(self.P - 2)\<close>, a
  non-negative integer below \<open>P - 2\<close>.
\<close>

definition DiffieHellman_init :: "nat \<Rightarrow> DiffieHellman" where
  "DiffieHellman_init r =
     (let priv = r + 1 in
      \<lparr>private_key = priv, public_key = G ^ priv mod P, shared_secret = None\<rparr>)"

definition get_public_key :: "DiffieHellman \<Rightarrow> int" where
  "get_public_key dh = public_key dh"

text \<open>
  \<open>pow(base, exp, mod)\<close> for a non-negative exponent and a positive modulus. The base
  is whatever the caller passed: three-argument \<open>pow\<close> raises TypeError unless it is
  an integer (\<open>bool\<close> is a subclass of \<open>int\<close>).
\<close>

definition py_pow3 :: "pyval \<Rightarrow> nat \<Rightarrow> int \<Rightarrow> pyerr + int" where
  "py_pow3 b e m =
     (case b of
        PInt i \<Rightarrow> Inr (i ^ e mod m)
      | PBool t \<Rightarrow> Inr ((if t then 1 else 0) ^ e mod m)
      | _ \<Rightarrow> Inl TypeError)"

text \<open>\<open>hashlib.sha256(str(self.shared_secret).encode()).digest()\<close>\<close>

definition derive_key :: "int \<Rightarrow> pyerr + bytes" where
  "derive_key s =
     (case encode_utf8 (py_str_int s) of Inl e \<Rightarrow> Inl e | Inr b \<Rightarrow> Inr (sha256 b))"

text \<open>
  A method that assigns to \<open>self\<close> returns the object after the call together with its
  result; the object is returned on the exceptional path too.
\<close>

definition compute_shared_secret ::
    "DiffieHellman \<Rightarrow> pyval \<Rightarrow> DiffieHellman \<times> (pyerr + bytes)" where
  "compute_shared_secret dh peer_public_key =
     (case py_pow3 peer_public_key (private_key dh) P of
        Inl e \<Rightarrow> (dh, Inl e)
      | Inr s \<Rightarrow> (dh\<lparr>shared_secret := Some s\<rparr>, derive_key s))"

definition get_shared_secret :: "DiffieHellman \<Rightarrow> pyerr + bytes" where
  "get_shared_secret dh =
     (case shared_secret dh of None \<Rightarrow> Inl PyException | Some s \<Rightarrow> derive_key s)"

section \<open>\<open>hmac\<close> and class \<open>MessageSecurity\<close>\<close>

text \<open>HMAC (RFC 2104) over SHA-256, whose block size is 64 bytes.\<close>

definition hmac_key_block :: "bytes \<Rightarrow> bytes" where
  "hmac_key_block k =
     (let k' = (if length k > 64 then sha256 k else k) in k' @ replicate (64 - length k') 0)"

definition hmac_sha256 :: "bytes \<Rightarrow> bytes \<Rightarrow> bytes" where
  "hmac_sha256 k m =
     (let kb = hmac_key_block k in
      sha256 (map (\<lambda>b. b XOR 0x5c) kb @ sha256 (map (\<lambda>b. b XOR 0x36) kb @ m)))"

definition hexchar :: "nat \<Rightarrow> nat" where
  "hexchar d = (if d < 10 then 48 + d else 87 + d)"

definition hexdigest :: "bytes \<Rightarrow> pystr" where
  "hexdigest bs = concat (map (\<lambda>b. [hexchar (unat b div 16), hexchar (unat b mod 16)]) bs)"

definition is_ascii :: "pystr \<Rightarrow> bool" where
  "is_ascii s = list_all (\<lambda>c. c < 128) s"

text \<open>
  \<open>hmac.compare_digest(a, b)\<close>: both arguments \<open>str\<close> and both ASCII, or both
  bytes-like (no \<open>pyval\<close> is); anything else raises TypeError.
\<close>

definition compare_digest :: "pyval \<Rightarrow> pyval \<Rightarrow> pyerr + bool" where
  "compare_digest a b =
     (case a of
        PStr x \<Rightarrow>
          (case b of
             PStr y \<Rightarrow> if is_ascii x \<and> is_ascii y then Inr (x = y) else Inl TypeError
           | _ \<Rightarrow> Inl TypeError)
      | _ \<Rightarrow> Inl TypeError)"

record MessageSecurity =
  shared_key :: bytes

text \<open>
  \<open>__init__(shared_key=None)\<close>: \<open>shared_key or secrets.token_bytes(32)\<close>. The second
  argument is that token; it is used when the key is \<open>None\<close> or empty.
\<close>

definition MessageSecurity_init :: "bytes option \<Rightarrow> bytes \<Rightarrow> MessageSecurity" where
  "MessageSecurity_init key token =
     \<lparr>shared_key = (case key of None \<Rightarrow> token | Some k \<Rightarrow> if k = [] then token else k)\<rparr>"

text \<open>
  \<open>create_hmac\<close>. \<open>message.encode('utf-8')\<close> raises AttributeError on a value with no
  such method and UnicodeEncodeError on a \<open>str\<close> holding a surrogate.
\<close>

definition create_hmac :: "MessageSecurity \<Rightarrow> pyval \<Rightarrow> pyerr + pystr" where
  "create_hmac ms message =
     (case message of
        PStr m \<Rightarrow>
          (case encode_utf8 m of
             Inl e \<Rightarrow> Inl e
           | Inr b \<Rightarrow> Inr (hexdigest (hmac_sha256 (shared_key ms) b)))
      | _ \<Rightarrow> Inl AttributeError)"

definition verify_hmac :: "MessageSecurity \<Rightarrow> pyval \<Rightarrow> pyval \<Rightarrow> pyerr + bool" where
  "verify_hmac ms message received_hmac =
     (case create_hmac ms message of
        Inl e \<Rightarrow> Inl e
      | Inr expected_hmac \<Rightarrow> compare_digest (PStr expected_hmac) received_hmac)"

section \<open>\<open>json\<close>\<close>

subsection \<open>\<open>json.dumps\<close>\<close>

definition hex4 :: "nat \<Rightarrow> pystr" where
  "hex4 n = [hexchar (n div 4096), hexchar ((n div 256) mod 16), hexchar ((n div 16) mod 16),
             hexchar (n mod 16)]"

text \<open>
  The escape of one code point with \<open>ensure_ascii\<close> (the default): the two-character
  escapes, the printable ASCII characters as they are, everything else as \<open>\uXXXX\<close>, a
  code point past U+FFFF as a surrogate pair.
\<close>

definition escape_char :: "nat \<Rightarrow> pystr" where
  "escape_char c =
     (if c = 34 then [92, 34]
      else if c = 92 then [92, 92]
      else if c = 10 then [92, 110]
      else if c = 13 then [92, 114]
      else if c = 9 then [92, 116]
      else if c = 12 then [92, 102]
      else if c = 8 then [92, 98]
      else if 32 \<le> c \<and> c \<le> 126 then [c]
      else if c < 0x10000 then [92, 117] @ hex4 c
      else [92, 117] @ hex4 (0xD800 + ((c - 0x10000) div 1024) mod 1024)
         @ [92, 117] @ hex4 (0xDC00 + (c - 0x10000) mod 1024))"

definition encode_basestring_ascii :: "pystr \<Rightarrow> pystr" where
  "encode_basestring_ascii s = [34] @ concat (map escape_char s) @ [34]"

text \<open>
  \<open>json.dumps\<close> with the default separators. A float is printed as its stored text:
  this program never serialises one.
\<close>

fun json_dumps :: "pyval \<Rightarrow> pystr"
and dumps_items :: "pyval list \<Rightarrow> pystr"
and dumps_pairs :: "(pystr \<times> pyval) list \<Rightarrow> pystr" where
  "json_dumps PNone = u ''null''"
| "json_dumps (PBool b) = (if b then u ''true'' else u ''false'')"
| "json_dumps (PInt i) = py_str_int i"
| "json_dumps (PFloat t) = t"
| "json_dumps (PStr s) = encode_basestring_ascii s"
| "json_dumps (PList xs) = u ''['' @ dumps_items xs @ u '']''"
| "json_dumps (PDict kvs) = u ''{'' @ dumps_pairs kvs @ u ''}''"
| "dumps_items [] = []"
| "dumps_items [x] = json_dumps x"
| "dumps_items (x # y # xs) = json_dumps x @ u '', '' @ dumps_items (y # xs)"
| "dumps_pairs [] = []"
| "dumps_pairs [(k, v)] = encode_basestring_ascii k @ u '': '' @ json_dumps v"
| "dumps_pairs ((k, v) # kv # kvs) =
     encode_basestring_ascii k @ u '': '' @ json_dumps v @ u '', '' @ dumps_pairs (kv # kvs)"

subsection \<open>\<open>json.loads\<close>\<close>

text \<open>
  The decoder of the standard library: \<open>scanstring\<close> (strict), the number pattern, and
  \<open>scan_once\<close> with \<open>JSONObject\<close> and \<open>JSONArray\<close>. Every way the text can fail to be
  JSON is a JSONDecodeError. An integer literal of more than 4300 digits raises ValueError
  (the interpreter's default limit on the conversion of a string to an \<open>int\<close>). The
  scanner's recursion is bounded by a counter that \<open>json_loads\<close> sets high enough never
  to run out (lemma \<open>json_loads_fuel\<close>): \<open>json_loads\<close> is \<open>json.loads\<close> on a text
  whose nesting stays within the interpreter's recursion limit. What is left of that limit
  at a call depends on the call stack, not on the text; \<open>_exchange_keys\<close>, which parses
  what a peer sent, takes from the environment whether it is exceeded.
\<close>

definition is_ws :: "nat \<Rightarrow> bool" where
  "is_ws c = (c = 32 \<or> c = 9 \<or> c = 10 \<or> c = 13)"

definition skip_ws :: "pystr \<Rightarrow> pystr" where
  "skip_ws s = dropWhile is_ws s"

definition is_digit :: "nat \<Rightarrow> bool" where
  "is_digit c = (48 \<le> c \<and> c \<le> 57)"

definition hexval :: "nat \<Rightarrow> nat option" where
  "hexval c =
     (if 48 \<le> c \<and> c \<le> 57 then Some (c - 48)
      else if 97 \<le> c \<and> c \<le> 102 then Some (c - 87)
      else if 65 \<le> c \<and> c \<le> 70 then Some (c - 55)
      else None)"

definition decode_hex4 :: "nat \<Rightarrow> nat \<Rightarrow> nat \<Rightarrow> nat \<Rightarrow> nat option" where
  "decode_hex4 a b c d =
     (case hexval a of None \<Rightarrow> None | Some w \<Rightarrow>
      case hexval b of None \<Rightarrow> None | Some x \<Rightarrow>
      case hexval c of None \<Rightarrow> None | Some y \<Rightarrow>
      case hexval d of None \<Rightarrow> None | Some z \<Rightarrow> Some (w * 4096 + x * 256 + y * 16 + z))"

definition backslash :: "nat \<Rightarrow> nat option" where
  "backslash e =
     (if e = 34 then Some 34 else if e = 92 then Some 92 else if e = 47 then Some 47
      else if e = 98 then Some 8 else if e = 102 then Some 12 else if e = 110 then Some 10
      else if e = 114 then Some 13 else if e = 116 then Some 9 else None)"

definition str_cons :: "nat \<Rightarrow> pyerr + (pystr \<times> pystr) \<Rightarrow> pyerr + (pystr \<times> pystr)" where
  "str_cons c r = (case r of Inl e \<Rightarrow> Inl e | Inr (t, rest) \<Rightarrow> Inr (c # t, rest))"

text \<open>
  \<open>scanstring\<close>, from just after the opening quote: the string and the text after the
  closing quote.
\<close>

fun scanstring :: "pystr \<Rightarrow> pyerr + (pystr \<times> pystr)" where
  "scanstring [] = Inl JSONDecodeError"
| "scanstring (c # s) =
     (if c = 34 then Inr ([], s)
      else if c = 92 then
        (case s of
           [] \<Rightarrow> Inl JSONDecodeError
         | e # s1 \<Rightarrow>
             if e = 117 then
               (case s1 of
                  a # b # c' # d # s2 \<Rightarrow>
                    (case decode_hex4 a b c' d of
                       None \<Rightarrow> Inl JSONDecodeError
                     | Some uni \<Rightarrow>
                         if 0xD800 \<le> uni \<and> uni \<le> 0xDBFF then
                           (case s2 of
                              b1 # u1 # s3 \<Rightarrow>
                                if b1 = 92 \<and> u1 = 117 then
                                  (case s3 of
                                     a2 # b2 # c2 # d2 # s4 \<Rightarrow>
                                       (case decode_hex4 a2 b2 c2 d2 of
                                          None \<Rightarrow> Inl JSONDecodeError
                                        | Some uni2 \<Rightarrow>
                                            if 0xDC00 \<le> uni2 \<and> uni2 \<le> 0xDFFF then
                                              str_cons
                                                (0x10000 + (uni - 0xD800) * 1024 + (uni2 - 0xDC00))
                                                (scanstring s4)
                                            else str_cons uni (scanstring s2))
                                   | _ \<Rightarrow> Inl JSONDecodeError)
                                else str_cons uni (scanstring s2)
                            | _ \<Rightarrow> str_cons uni (scanstring s2))
                         else str_cons uni (scanstring s2))
                | _ \<Rightarrow> Inl JSONDecodeError)
             else
               (case backslash e of
                  None \<Rightarrow> Inl JSONDecodeError
                | Some ch \<Rightarrow> str_cons ch (scanstring s1)))
      else if c < 32 then Inl JSONDecodeError
      else str_cons c (scanstring s))"

text \<open>
  The number pattern
  \<^verbatim>\<open>(-?(?:0|[1-9][0-9]*))(\.[0-9]+)?([eE][-+]?[0-9]+)?\<close>: the match, as \<open>int\<close> when it has
  neither fraction nor exponent and as \<open>float\<close> otherwise, and the text after it.
\<close>

fun nat_of_digits :: "nat \<Rightarrow> pystr \<Rightarrow> nat" where
  "nat_of_digits acc [] = acc"
| "nat_of_digits acc (d # ds) = nat_of_digits (10 * acc + (d - 48)) ds"

definition match_int_part :: "pystr \<Rightarrow> (pystr \<times> pystr) option" where
  "match_int_part s =
     (case s of
        [] \<Rightarrow> None
      | d # r \<Rightarrow>
          if d = 48 then Some ([d], r)
          else if 49 \<le> d \<and> d \<le> 57 then Some (d # takeWhile is_digit r, dropWhile is_digit r)
          else None)"

definition match_frac :: "pystr \<Rightarrow> pystr \<times> pystr" where
  "match_frac s =
     (case s of
        [] \<Rightarrow> ([], s)
      | c # r \<Rightarrow>
          if c = 46 \<and> takeWhile is_digit r \<noteq> []
          then (c # takeWhile is_digit r, dropWhile is_digit r)
          else ([], s))"

definition match_exp :: "pystr \<Rightarrow> pystr \<times> pystr" where
  "match_exp s =
     (case s of
        [] \<Rightarrow> ([], s)
      | c # r \<Rightarrow>
          if c = 101 \<or> c = 69 then
            (case r of
               [] \<Rightarrow> ([], s)
             | g # r' \<Rightarrow>
                 if (g = 45 \<or> g = 43) \<and> takeWhile is_digit r' \<noteq> []
                 then (c # g # takeWhile is_digit r', dropWhile is_digit r')
                 else if takeWhile is_digit r \<noteq> []
                 then (c # takeWhile is_digit r, dropWhile is_digit r)
                 else ([], s))
          else ([], s))"

definition match_number :: "pystr \<Rightarrow> ((pyerr + pyval) \<times> pystr) option" where
  "match_number s =
     (let neg = (case s of [] \<Rightarrow> False | c # _ \<Rightarrow> c = 45);
          s0 = (if neg then tl s else s)
      in case match_int_part s0 of
           None \<Rightarrow> None
         | Some (ds, r1) \<Rightarrow>
             (case match_frac r1 of (frac, r2) \<Rightarrow>
              case match_exp r2 of (ex, r3) \<Rightarrow>
                if frac = [] \<and> ex = []
                then
                  (if 4300 < length ds then Some (Inl ValueError, r3)
                   else Some (Inr (PInt (if neg then - int (nat_of_digits 0 ds)
                                         else int (nat_of_digits 0 ds))), r3))
                else Some (Inr (PFloat ((if neg then [45] else []) @ ds @ frac @ ex)), r3)))"

definition starts_with :: "string \<Rightarrow> pystr \<Rightarrow> bool" where
  "starts_with lit s = (take (length lit) s = u lit)"

text \<open>\<open>dict(pairs)\<close>: a later pair with a key already present replaces its value.\<close>

fun dict_set :: "(pystr \<times> pyval) list \<Rightarrow> pystr \<Rightarrow> pyval \<Rightarrow> (pystr \<times> pyval) list" where
  "dict_set [] k v = [(k, v)]"
| "dict_set ((k', v') # d) k v = (if k' = k then (k, v) # d else (k', v') # dict_set d k v)"

definition dict_of_pairs :: "(pystr \<times> pyval) list \<Rightarrow> (pystr \<times> pyval) list" where
  "dict_of_pairs ps = foldl (\<lambda>d kv. dict_set d (fst kv) (snd kv)) [] ps"

text \<open>
  \<open>scan_once\<close> reads one value at the head of the text. \<open>JSONObject_loop\<close> starts just
  after the opening quote of a key, \<open>JSONArray_loop\<close> at an element; both carry what
  they have read so far. The first argument bounds the depth of the calls.
\<close>

fun scan_once :: "nat \<Rightarrow> pystr \<Rightarrow> pyerr + (pyval \<times> pystr)"
and JSONObject_loop :: "nat \<Rightarrow> (pystr \<times> pyval) list \<Rightarrow> pystr \<Rightarrow> pyerr + (pyval \<times> pystr)"
and JSONArray_loop :: "nat \<Rightarrow> pyval list \<Rightarrow> pystr \<Rightarrow> pyerr + (pyval \<times> pystr)" where
  "scan_once 0 s = Inl RecursionError"
| "scan_once (Suc n) s =
     (case s of
        [] \<Rightarrow> Inl JSONDecodeError
      | c # r \<Rightarrow>
          if c = 34 then
            (case scanstring r of Inl e \<Rightarrow> Inl e | Inr (t, rest) \<Rightarrow> Inr (PStr t, rest))
          else if c = 123 then
            (case skip_ws r of
               [] \<Rightarrow> Inl JSONDecodeError
             | d # r' \<Rightarrow>
                 if d = 125 then Inr (PDict [], r')
                 else if d = 34 then JSONObject_loop n [] r'
                 else Inl JSONDecodeError)
          else if c = 91 then
            (case skip_ws r of
               [] \<Rightarrow> Inl JSONDecodeError
             | d # r' \<Rightarrow>
                 if d = 93 then Inr (PList [], r')
                 else JSONArray_loop n [] (d # r'))
          else if starts_with ''null'' s then Inr (PNone, drop 4 s)
          else if starts_with ''true'' s then Inr (PBool True, drop 4 s)
          else if starts_with ''false'' s then Inr (PBool False, drop 5 s)
          else
            (case match_number s of
               Some (res, rest) \<Rightarrow> (case res of Inl e \<Rightarrow> Inl e | Inr v \<Rightarrow> Inr (v, rest))
             | None \<Rightarrow>
                 if starts_with ''NaN'' s then Inr (PFloat (u ''NaN''), drop 3 s)
                 else if starts_with ''Infinity'' s then Inr (PFloat (u ''Infinity''), drop 8 s)
                 else if starts_with ''-Infinity'' s then Inr (PFloat (u ''-Infinity''), drop 9 s)
                 else Inl JSONDecodeError))"
| "JSONObject_loop 0 pairs s = Inl RecursionError"
| "JSONObject_loop (Suc n) pairs s =
     (case scanstring s of
        Inl e \<Rightarrow> Inl e
      | Inr (key, r) \<Rightarrow>
          (case skip_ws r of
             [] \<Rightarrow> Inl JSONDecodeError
           | c # r1 \<Rightarrow>
               if c = 58 then
                 (case scan_once n (skip_ws r1) of
                    Inl e \<Rightarrow> Inl e
                  | Inr (v, r2) \<Rightarrow>
                      (case skip_ws r2 of
                         [] \<Rightarrow> Inl JSONDecodeError
                       | d # r3 \<Rightarrow>
                           if d = 125 then Inr (PDict (dict_of_pairs (pairs @ [(key, v)])), r3)
                           else if d = 44 then
                             (case skip_ws r3 of
                                [] \<Rightarrow> Inl JSONDecodeError
                              | q # r4 \<Rightarrow>
                                  if q = 34 then JSONObject_loop n (pairs @ [(key, v)]) r4
                                  else Inl JSONDecodeError)
                           else Inl JSONDecodeError))
               else Inl JSONDecodeError))"
| "JSONArray_loop 0 vals s = Inl RecursionError"
| "JSONArray_loop (Suc n) vals s =
     (case scan_once n s of
        Inl e \<Rightarrow> Inl e
      | Inr (v, r) \<Rightarrow>
          (case skip_ws r of
             [] \<Rightarrow> Inl JSONDecodeError
           | d # r1 \<Rightarrow>
               if d = 93 then Inr (PList (vals @ [v]), r1)
               else if d = 44 then JSONArray_loop n (vals @ [v]) (skip_ws r1)
               else Inl JSONDecodeError))"

text \<open>
  \<open>json.loads\<close> of a \<open>str\<close>: a leading byte-order mark is refused, whitespace around
  the value is skipped, and anything left after it is an error.
\<close>

definition json_loads :: "pystr \<Rightarrow> pyerr + pyval" where
  "json_loads s =
     (if take 1 s = [0xFEFF] then Inl JSONDecodeError
      else
        (case scan_once (2 * length s + 1) (skip_ws s) of
           Inl e \<Rightarrow> Inl e
         | Inr (v, rest) \<Rightarrow> if skip_ws rest = [] then Inr v else Inl JSONDecodeError))"

text \<open>
  What a scanner may return on a text: an exception other than RecursionError, or a
  value with a rest that is strictly shorter than the text.
\<close>

definition scan_ok :: "pyerr + ('a \<times> pystr) \<Rightarrow> pystr \<Rightarrow> bool" where
  "scan_ok res s = (case res of Inl e \<Rightarrow> e \<noteq> RecursionError | Inr (v, r) \<Rightarrow> length r < length s)"

text \<open>Subscription \<open>data[key]\<close> with a \<open>str\<close> key, and \<open>data.get(key, default)\<close>.\<close>

definition py_getitem :: "pyval \<Rightarrow> pystr \<Rightarrow> pyerr + pyval" where
  "py_getitem data key =
     (case data of
        PDict kvs \<Rightarrow> (case map_of kvs key of None \<Rightarrow> Inl KeyError | Some v \<Rightarrow> Inr v)
      | _ \<Rightarrow> Inl TypeError)"

definition py_get :: "pyval \<Rightarrow> pystr \<Rightarrow> pyval \<Rightarrow> pyerr + pyval" where
  "py_get data key dflt =
     (case data of
        PDict kvs \<Rightarrow> (case map_of kvs key of None \<Rightarrow> Inr dflt | Some v \<Rightarrow> Inr v)
      | _ \<Rightarrow> Inl AttributeError)"

subsection \<open>\<open>package_message\<close> and \<open>unpackage_message\<close>\<close>

definition package_message :: "MessageSecurity \<Rightarrow> pyval \<Rightarrow> pyerr + pystr" where
  "package_message ms message =
     (case create_hmac ms message of
        Inl e \<Rightarrow> Inl e
      | Inr mac \<Rightarrow> Inr (json_dumps (PDict [(u ''msg'', message), (u ''hmac'', PStr mac)])))"

text \<open>
  \<open>unpackage_message\<close> returns a pair (message, valid); the handler turns a
  JSONDecodeError or a KeyError raised in the \<open>try\<close> block into \<open>(None, False)\<close>, and
  any other exception leaves the method.
\<close>

definition unpackage_body :: "MessageSecurity \<Rightarrow> pystr \<Rightarrow> pyerr + (pyval \<times> bool)" where
  "unpackage_body ms package =
     (case json_loads package of
        Inl e \<Rightarrow> Inl e
      | Inr data \<Rightarrow>
          (case py_getitem data (u ''msg'') of
             Inl e \<Rightarrow> Inl e
           | Inr message \<Rightarrow>
               (case py_getitem data (u ''hmac'') of
                  Inl e \<Rightarrow> Inl e
                | Inr received_hmac \<Rightarrow>
                    (case verify_hmac ms message received_hmac of
                       Inl e \<Rightarrow> Inl e
                     | Inr is_valid \<Rightarrow> Inr (message, is_valid)))))"

definition unpackage_message :: "MessageSecurity \<Rightarrow> pystr \<Rightarrow> pyerr + (pyval \<times> bool)" where
  "unpackage_message ms package =
     (case unpackage_body ms package of
        Inl e \<Rightarrow> if e = JSONDecodeError \<or> e = KeyError then Inr (PNone, False) else Inl e
      | Inr r \<Rightarrow> Inr r)"

text \<open>
  A message is valid UTF-8 text when every code point is a Unicode scalar value: at most
  U+10FFFF and not a surrogate. These are the strings \<open>encode('utf-8')\<close> accepts.
\<close>

definition is_scalar :: "nat \<Rightarrow> bool" where
  "is_scalar c = (c < 0x110000 \<and> \<not> (0xD800 \<le> c \<and> c \<le> 0xDFFF))"

definition valid_utf8 :: "pystr \<Rightarrow> bool" where
  "valid_utf8 s = list_all is_scalar s"

section \<open>Class \<open>SecureConnectionManager\<close>\<close>

text \<open>
  The two dictionaries of the manager. A key is whatever object the caller passes: in
  this program an address string \<open>"ip:port"\<close>, or a socket object, which hashes and
  compares by identity and so equals no string.
\<close>

datatype dkey = KStr pystr | KSock nat

record SecureConnectionManager =
  peer_keys :: "dkey \<rightharpoonup> MessageSecurity"
  peer_dh :: "dkey \<rightharpoonup> DiffieHellman"

definition SecureConnectionManager_init :: SecureConnectionManager where
  "SecureConnectionManager_init = \<lparr>peer_keys = Map.empty, peer_dh = Map.empty\<rparr>"

text \<open>
  \<open>initiate_key_exchange\<close>; \<open>r\<close> is the draw of the new \<open>DiffieHellman()\<close>.
\<close>

definition initiate_key_exchange ::
    "SecureConnectionManager \<Rightarrow> nat \<Rightarrow> dkey \<Rightarrow> SecureConnectionManager \<times> int" where
  "initiate_key_exchange m r peer_addr =
     (let dh = DiffieHellman_init r in
      (m\<lparr>peer_dh := (peer_dh m)(peer_addr \<mapsto> dh)\<rparr>, get_public_key dh))"

text \<open>
  \<open>complete_key_exchange\<close>; \<open>r\<close> is the draw used if a \<open>DiffieHellman()\<close> has to be
  created, \<open>token\<close> the random key \<open>MessageSecurity\<close> falls back to. The object in
  \<open>peer_dh\<close> is the one \<open>compute_shared_secret\<close> assigns to, so the entry is written
  back. When \<open>compute_shared_secret\<close> raises, \<open>peer_keys\<close> is not assigned.
\<close>

definition complete_key_exchange ::
    "SecureConnectionManager \<Rightarrow> nat \<Rightarrow> bytes \<Rightarrow> dkey \<Rightarrow> pyval
       \<Rightarrow> SecureConnectionManager \<times> (pyerr + unit)" where
  "complete_key_exchange m r token peer_addr peer_public_key =
     (let dh = (case peer_dh m peer_addr of None \<Rightarrow> DiffieHellman_init r | Some d \<Rightarrow> d)
      in case compute_shared_secret dh peer_public_key of
           (dh', Inl e) \<Rightarrow> (m\<lparr>peer_dh := (peer_dh m)(peer_addr \<mapsto> dh')\<rparr>, Inl e)
         | (dh', Inr shared) \<Rightarrow>
             (m\<lparr>peer_dh := (peer_dh m)(peer_addr \<mapsto> dh'),
                peer_keys := (peer_keys m)(peer_addr \<mapsto> MessageSecurity_init (Some shared) token)\<rparr>,
              Inr ()))"

definition get_security :: "SecureConnectionManager \<Rightarrow> dkey \<Rightarrow> MessageSecurity option" where
  "get_security m peer_addr = peer_keys m peer_addr"

definition has_secure_connection :: "SecureConnectionManager \<Rightarrow> dkey \<Rightarrow> bool" where
  "has_secure_connection m peer_addr = (peer_addr \<in> dom (peer_keys m))"

definition remove_peer :: "SecureConnectionManager \<Rightarrow> dkey \<Rightarrow> SecureConnectionManager" where
  "remove_peer m peer_addr =
     m\<lparr>peer_keys := (peer_keys m)(peer_addr := None), peer_dh := (peer_dh m)(peer_addr := None)\<rparr>"

text \<open>The states a manager can be in: the initial one, closed under its three mutators.\<close>

inductive reachable :: "SecureConnectionManager \<Rightarrow> bool" where
  r_init: "reachable SecureConnectionManager_init"
| r_initiate: "reachable m \<Longrightarrow> reachable (fst (initiate_key_exchange m r a))"
| r_complete: "reachable m \<Longrightarrow> reachable (fst (complete_key_exchange m r token a pk))"
| r_remove: "reachable m \<Longrightarrow> reachable (remove_peer m a)"

definition session_inv :: "SecureConnectionManager \<Rightarrow> bool" where
  "session_inv m = (dom (peer_keys m) \<subseteq> dom (peer_dh m))"

section \<open>The node: \<open>utils\<close>, \<open>peersdb\<close>, \<open>server.py\<close> and \<open>client.py\<close>\<close>

subsection \<open>\<open>bytes.decode('utf-8')\<close> and \<open>tuple_to_socket\<close>\<close>

definition is_cont :: "nat \<Rightarrow> bool" where
  "is_cont b = (0x80 \<le> b \<and> b \<le> 0xBF)"

definition dec_cons :: "nat \<Rightarrow> pyerr + pystr \<Rightarrow> pyerr + pystr" where
  "dec_cons c r = (case r of Inl e \<Rightarrow> Inl e | Inr t \<Rightarrow> Inr (c # t))"

text \<open>
  Strict UTF-8 decoding of a list of octets: an overlong form, a surrogate, a value
  past U+10FFFF, a stray or missing continuation octet raise UnicodeDecodeError.
\<close>

fun utf8_dec :: "nat list \<Rightarrow> pyerr + pystr" where
  "utf8_dec [] = Inr []"
| "utf8_dec (b # bs) =
     (if b < 0x80 then dec_cons b (utf8_dec bs)
      else if 0xC0 \<le> b \<and> b \<le> 0xDF then
        (case bs of
           c1 # r \<Rightarrow>
             (let cp = (b - 0xC0) * 64 + (c1 - 0x80) in
              if is_cont c1 \<and> 0x80 \<le> cp then dec_cons cp (utf8_dec r)
              else Inl UnicodeDecodeError)
         | _ \<Rightarrow> Inl UnicodeDecodeError)
      else if 0xE0 \<le> b \<and> b \<le> 0xEF then
        (case bs of
           c1 # c2 # r \<Rightarrow>
             (let cp = (b - 0xE0) * 4096 + (c1 - 0x80) * 64 + (c2 - 0x80) in
              if is_cont c1 \<and> is_cont c2 \<and> 0x800 \<le> cp \<and> \<not> (0xD800 \<le> cp \<and> cp \<le> 0xDFFF)
              then dec_cons cp (utf8_dec r)
              else Inl UnicodeDecodeError)
         | _ \<Rightarrow> Inl UnicodeDecodeError)
      else if 0xF0 \<le> b \<and> b \<le> 0xF4 then
        (case bs of
           c1 # c2 # c3 # r \<Rightarrow>
             (let cp = (b - 0xF0) * 262144 + (c1 - 0x80) * 4096 + (c2 - 0x80) * 64 + (c3 - 0x80) in
              if is_cont c1 \<and> is_cont c2 \<and> is_cont c3 \<and> 0x10000 \<le> cp \<and> cp \<le> 0x10FFFF
              then dec_cons cp (utf8_dec r)
              else Inl UnicodeDecodeError)
         | _ \<Rightarrow> Inl UnicodeDecodeError)
      else Inl UnicodeDecodeError)"

definition decode_utf8 :: "bytes \<Rightarrow> pyerr + pystr" where
  "decode_utf8 data = utf8_dec (map unat data)"

text \<open>An address is the pair (host, port); \<open>tuple_to_socket\<close> formats it as \<open>host:port\<close>.\<close>

definition tuple_to_socket :: "pystr \<times> int \<Rightarrow> pystr" where
  "tuple_to_socket addr = fst addr @ [58] @ py_str_int (snd addr)"

subsection \<open>The state of a node\<close>

text \<open>
  What a socket call gives: \<open>recv\<close> returns octets (none when the peer has closed) or
  raises; \<open>sendall\<close> and the TLS connect return or raise.
\<close>

datatype recv_result = RecvData bytes | RecvError pyerr

datatype io_result = IoOk | IoRaise pyerr

text \<open>
  What the receive loop shows and logs. \<open>ShowMessage v\<close> is \<open>print\<close> of chat content,
  \<open>LogMessage v\<close> is \<open>logger.log\<close> of chat content; \<open>SecurityAlert\<close> is the banner of
  lines 171 to 173 and \<open>LogIntegrityViolation\<close> the log entry of line 177.
\<close>

datatype console_event = ShowMessage pyval | SecurityAlert | PeerClosedNotice | ProcessingError pyerr

datatype log_entry = LogMessage pyval | LogIntegrityViolation

text \<open>
  The process-wide objects: \<open>secure_manager\<close>, \<open>peersdb.peers\<close>, the client's connection
  set and counter, the sockets closed so far, the console and the log. A socket object is
  a number. Status lines the client prints are not recorded.
\<close>

record node =
  manager :: SecureConnectionManager
  peers :: "pystr set"
  connections :: "nat set"
  concount :: nat
  closed_socks :: "nat set"
  console :: "console_event list"
  logged :: "log_entry list"

definition node_init :: node where
  "node_init = \<lparr>manager = SecureConnectionManager_init, peers = {}, connections = {},
                 concount = 0, closed_socks = {}, console = [], logged = []\<rparr>"

subsection \<open>\<open>Server._handle_key_exchange\<close> and \<open>Server.handle_peer\<close>\<close>

text \<open>
  \<open>_handle_key_exchange\<close>: every exception is caught and printed, so the method always
  returns; what it leaves behind is the manager.
\<close>

definition handle_key_exchange ::
    "node \<Rightarrow> nat \<Rightarrow> bytes \<Rightarrow> pystr \<times> int \<Rightarrow> pyval \<Rightarrow> node" where
  "handle_key_exchange w r token addr package =
     (case py_getitem package (u ''public_key'') of
        Inl e \<Rightarrow> w
      | Inr peer_public_key \<Rightarrow>
          (let peer_addr = tuple_to_socket addr;
               m1 = fst (initiate_key_exchange (manager w) r (KStr peer_addr));
               m2 = fst (complete_key_exchange m1 r token (KStr peer_addr) peer_public_key)
           in w\<lparr>manager := m2\<rparr>))"

text \<open>
  The name \<open>peer_addr\<close> in \<open>handle_peer\<close>: the assignment on line 143 is commented out,
  the parameters are \<open>self\<close>, \<open>conn\<close> and \<open>addr\<close>, and the module binds no global of that
  name. Evaluating it raises NameError.
\<close>

definition handle_peer_peer_addr :: "pyerr + pystr" where
  "handle_peer_peer_addr = Inl NameError"

definition show_and_log :: "node \<Rightarrow> pyval \<Rightarrow> node" where
  "show_and_log w v = w\<lparr>console := console w @ [ShowMessage v], logged := logged w @ [LogMessage v]\<rparr>"

text \<open>
  Lines 160 to 184: one received text that is not the disconnect sentinel. The session
  is looked up under the socket object \<open>conn\<close>. The bare \<open>except\<close> catches whatever the
  inner \<open>try\<close> raises, the NameError of line 174 included.
\<close>

definition process_message :: "node \<Rightarrow> nat \<Rightarrow> pystr \<Rightarrow> node" where
  "process_message w conn msg_data =
     (case get_security (manager w) (KSock conn) of
        None \<Rightarrow> w\<lparr>console := console w @ [ShowMessage (PStr msg_data)]\<rparr>
      | Some security \<Rightarrow>
          (case unpackage_message security msg_data of
             Inl e \<Rightarrow> show_and_log w (PStr msg_data)
           | Inr (message, is_valid) \<Rightarrow>
               if is_valid then show_and_log w message
               else
                 (let w1 = w\<lparr>console := console w @ [SecurityAlert]\<rparr> in
                  case handle_peer_peer_addr of
                    Inl e \<Rightarrow> show_and_log w1 (PStr msg_data)
                  | Inr peer_addr \<Rightarrow> w1\<lparr>logged := logged w1 @ [LogIntegrityViolation]\<rparr>)))"

text \<open>
  The \<open>while True\<close> loop over what \<open>conn.recv\<close> gives, in order. It ends by \<open>break\<close>
  or by an exception; when the list is used up the thread is waiting in \<open>recv\<close>.
\<close>

datatype loop_exit = Break | Raise pyerr | Waiting

fun receive_loop :: "node \<Rightarrow> nat \<Rightarrow> recv_result list \<Rightarrow> node \<times> loop_exit" where
  "receive_loop w conn [] = (w, Waiting)"
| "receive_loop w conn (RecvError e # evs) = (w, Raise e)"
| "receive_loop w conn (RecvData data # evs) =
     (if data = [] then (w, Break)
      else
        (case decode_utf8 data of
           Inl e \<Rightarrow> (w, Raise e)
         | Inr msg_data \<Rightarrow>
             if msg_data = u ''__DISCONNECT__''
             then (w\<lparr>console := console w @ [PeerClosedNotice]\<rparr>, Break)
             else receive_loop (process_message w conn msg_data) conn evs))"

text \<open>
  The \<open>finally\<close> block, lines 189 to 191: \<open>conn.close()\<close>, then the two removals, each
  of which first evaluates \<open>peer_addr\<close>.
\<close>

definition finally_block :: "node \<Rightarrow> nat \<Rightarrow> node \<times> (pyerr + unit)" where
  "finally_block w conn =
     (let w1 = w\<lparr>closed_socks := insert conn (closed_socks w)\<rparr> in
      case handle_peer_peer_addr of
        Inl e \<Rightarrow> (w1, Inl e)
      | Inr peer_addr \<Rightarrow>
          (w1\<lparr>peers := peers w1 - {peer_addr},
              manager := remove_peer (manager w1) (KStr peer_addr)\<rparr>, Inr ()))"

datatype thread_state = Running | Returned | Died pyerr

definition handle_peer :: "node \<Rightarrow> nat \<Rightarrow> recv_result list \<Rightarrow> node \<times> thread_state" where
  "handle_peer w conn evs =
     (case receive_loop w conn evs of
        (w1, Waiting) \<Rightarrow> (w1, Running)
      | (w1, ex) \<Rightarrow>
          (let w2 = (case ex of Raise e \<Rightarrow> w1\<lparr>console := console w1 @ [ProcessingError e]\<rparr>
                               | _ \<Rightarrow> w1)
           in case finally_block w2 conn of
                (w3, Inl e) \<Rightarrow> (w3, Died e)
              | (w3, Inr _) \<Rightarrow> (w3, Returned)))"

subsection \<open>\<open>Client._exchange_keys\<close> and \<open>Client.connect\<close>\<close>

text \<open>
  What the environment supplies to one \<open>connect\<close>: the outcome of the TLS connect, the
  new socket object, the random draws, the outcome of sending the key package, what
  \<open>recv\<close> gives, whether the nesting of the reply exceeds what is left of the
  interpreter's recursion limit (then \<open>json.loads\<close> raises RecursionError), and the
  outcome of sending the peer list.
\<close>

record env =
  tls :: io_result
  conn_id :: nat
  dh_draw :: nat
  key_token :: bytes
  send_key :: io_result
  reply :: recv_result
  depth_exceeded :: bool
  send_peers :: io_result

text \<open>
  \<open>print\<close> of an f-string that interpolates a value, on a standard output that encodes
  as UTF-8. The text of a \<open>str\<close> is the string itself, which cannot be encoded when it
  holds a surrogate; the text of any other value escapes the surrogates inside it.
\<close>

definition py_print :: "pyval \<Rightarrow> pyerr + unit" where
  "py_print v =
     (case v of
        PStr t \<Rightarrow> if valid_utf8 t then Inr () else Inl UnicodeEncodeError
      | _ \<Rightarrow> Inr ())"

text \<open>
  \<open>_exchange_keys\<close>: the handler prints and re-raises, so the result is the exception.
  A reply whose \<open>type\<close> is not \<open>DH_KEY_EXCHANGE\<close> takes no branch and the method returns.
  The last statement of the branch prints the user name the peer sent, after the key has
  been installed.
\<close>

definition exchange_keys :: "node \<Rightarrow> env \<Rightarrow> pystr \<Rightarrow> node \<times> (pyerr + unit)" where
  "exchange_keys w e peer_addr =
     (let w1 = w\<lparr>manager := fst (initiate_key_exchange (manager w) (dh_draw e) (KStr peer_addr))\<rparr>
      in case send_key e of
           IoRaise x \<Rightarrow> (w1, Inl x)
         | IoOk \<Rightarrow>
             (case reply e of
                RecvError x \<Rightarrow> (w1, Inl x)
              | RecvData data \<Rightarrow>
                  (case decode_utf8 data of
                     Inl x \<Rightarrow> (w1, Inl x)
                   | Inr text \<Rightarrow>
                       (case (if depth_exceeded e then Inl RecursionError else json_loads text) of
                          Inl x \<Rightarrow> (w1, Inl x)
                        | Inr peer_package \<Rightarrow>
                            (case py_getitem peer_package (u ''type'') of
                               Inl x \<Rightarrow> (w1, Inl x)
                             | Inr ty \<Rightarrow>
                                 if ty = PStr (u ''DH_KEY_EXCHANGE'') then
                                   (case py_getitem peer_package (u ''public_key'') of
                                      Inl x \<Rightarrow> (w1, Inl x)
                                    | Inr peer_public_key \<Rightarrow>
                                        (case py_get peer_package (u ''username'')
                                                (PStr (u ''unknown'')) of
                                           Inl x \<Rightarrow> (w1, Inl x)
                                         | Inr peer_username \<Rightarrow>
                                             (case complete_key_exchange (manager w1) (dh_draw e)
                                                     (key_token e) (KStr peer_addr)
                                                     peer_public_key of
                                                (m2, Inl x) \<Rightarrow> (w1\<lparr>manager := m2\<rparr>, Inl x)
                                              | (m2, Inr _) \<Rightarrow>
                                                  (w1\<lparr>manager := m2\<rparr>,
                                                   py_print peer_username))))
                                 else (w1, Inr ()))))))"

text \<open>\<open>Connections.remove\<close>, as the last handler of \<open>connect\<close> calls it.\<close>

definition connect_failed :: "node \<Rightarrow> nat \<Rightarrow> pyerr \<Rightarrow> node" where
  "connect_failed w conn x =
     (if x = SSLError then w else w\<lparr>connections := connections w - {conn}\<rparr>)"

text \<open>
  \<open>connect\<close>: every exception is caught by one of the three handlers, so the method
  always returns. Only the last handler, for exceptions other than \<open>ssl.SSLError\<close>,
  touches the state.
\<close>

definition connect :: "node \<Rightarrow> env \<Rightarrow> pystr \<times> int \<Rightarrow> node" where
  "connect w e addr =
     (if fst addr = u ''127.0.0.1'' \<or> fst addr = u ''127.0.1.1'' then w
      else
        (case tls e of
           IoRaise x \<Rightarrow> connect_failed w (conn_id e) x
         | IoOk \<Rightarrow>
             (let peer_addr = tuple_to_socket addr in
              case exchange_keys w e peer_addr of
                (w1, Inl x) \<Rightarrow> connect_failed w1 (conn_id e) x
              | (w1, Inr _) \<Rightarrow>
                  (let w2 = w1\<lparr>connections := insert (conn_id e) (connections w1),
                                concount := concount w1 + 1\<rparr>
                   in case send_peers e of
                        IoRaise x \<Rightarrow> connect_failed w2 (conn_id e) x
                      | IoOk \<Rightarrow> w2\<lparr>peers := insert peer_addr (peers w2)\<rparr>))))"

subsection \<open>Scenarios\<close>

text \<open>
  A peer at 10.0.0.2, port 5000; the key-exchange package it sends; the node after the
  server has handled that package, with the peer in its registry; an envelope whose
  \<open>hmac\<close> field is not the message's HMAC; and three replies a connecting client can
  receive: text that is not JSON, a JSON object of another message type, and a
  key-exchange package whose user name is the lone surrogate U+D800.
\<close>

definition addr0 :: "pystr \<times> int" where "addr0 = (u ''10.0.0.2'', 5000)"

definition peer0 :: pystr where "peer0 = u ''10.0.0.2:5000''"

definition hello :: pyval where
  "hello = PDict [(u ''type'', PStr (u ''DH_KEY_EXCHANGE'')), (u ''public_key'', PInt 4),
                  (u ''username'', PStr (u ''bob''))]"

definition w_est :: node where
  "w_est = (handle_key_exchange node_init 0 [] addr0 hello)\<lparr>peers := {peer0}\<rparr>"

definition tampered :: pystr where
  "tampered = json_dumps (PDict [(u ''msg'', PStr (u ''pay 100'')), (u ''hmac'', PStr (u ''00''))])"

definition env_not_json :: env where
  "env_not_json = \<lparr>tls = IoOk, conn_id = 7, dh_draw = 0, key_token = [], send_key = IoOk,
                    reply = RecvData (map of_nat (u ''oops'')), depth_exceeded = False,
                    send_peers = IoOk\<rparr>"

definition wrong_type_reply :: pystr where
  "wrong_type_reply = json_dumps (PDict [(u ''type'', PStr (u ''HELLO''))])"

definition env_wrong_type :: env where
  "env_wrong_type = env_not_json\<lparr>reply := RecvData (map of_nat wrong_type_reply)\<rparr>"

definition surrogate_reply :: pystr where
  "surrogate_reply =
     json_dumps (PDict [(u ''type'', PStr (u ''DH_KEY_EXCHANGE'')), (u ''public_key'', PInt 4),
                        (u ''username'', PStr [0xD800])])"

definition env_surrogate :: env where
  "env_surrogate = env_not_json\<lparr>reply := RecvData (map of_nat surrogate_reply)\<rparr>"

section \<open>Properties of the key exchange\<close>

lemma length_sha256: "length (sha256 m) = 32"
  by (simp add: sha256_def sha256_digest_def be32_def split: prod.splits)

lemma digits10_ascii: "list_all (\<lambda>c. c < 128) (digits10 n)"
proof (induction n rule: digits10.induct)
  case (1 n)
  show ?case
  proof (cases "n < 10")
    case True
    then show ?thesis by (subst digits10.simps) simp
  next
    case False
    with 1 show ?thesis by (subst digits10.simps) simp
  qed
qed

lemma encode_utf8_ascii:
  "list_all (\<lambda>c. c < 128) s \<Longrightarrow> encode_utf8 s = Inr (map of_nat s)"
  by (induction s) (simp_all add: utf8_char_def)

lemma py_str_int_ascii: "list_all (\<lambda>c. c < 128) (py_str_int i)"
  by (simp add: py_str_int_def digits10_ascii)

lemma derive_key_eq: "derive_key s = Inr (sha256 (map of_nat (py_str_int s)))"
  by (simp add: derive_key_def encode_utf8_ascii [OF py_str_int_ascii])

lemma compute_shared_secret_int:
  "compute_shared_secret dh (PInt y) =
     (dh\<lparr>shared_secret := Some (y ^ private_key dh mod P)\<rparr>,
      Inr (sha256 (map of_nat (py_str_int (y ^ private_key dh mod P)))))"
  by (simp add: compute_shared_secret_def py_pow3_def derive_key_eq)

lemma dh_secret_commutes: "(G ^ b mod P) ^ a mod P = (G ^ a mod P) ^ b mod P"
proof -
  have "(G ^ b mod P) ^ a mod P = G ^ (b * a) mod P"
    by (simp add: power_mod power_mult)
  also have "\<dots> = G ^ (a * b) mod P"
    by (simp add: mult.commute)
  also have "\<dots> = (G ^ a mod P) ^ b mod P"
    by (simp add: power_mod power_mult)
  finally show ?thesis .
qed

text \<open>
  C1. Two instances A and B, generated from any two draws, derive the same key from each
  other's public value; the key is 32 bytes long and is the SHA-256 digest of the decimal
  rendering of \<open>peer_public ^ private mod P\<close>, so it is a function of the own private
  exponent and the peer's public value alone; the secret stored is \<open>G ^ (a * b) mod P\<close>.
\<close>

theorem dh_symmetry:
  fixes ra rb :: nat and dh :: DiffieHellman and y :: int
  defines "A \<equiv> DiffieHellman_init ra" and "B \<equiv> DiffieHellman_init rb"
  shows "snd (compute_shared_secret A (PInt (get_public_key B))) =
           snd (compute_shared_secret B (PInt (get_public_key A)))
       \<and> (\<exists>k. snd (compute_shared_secret A (PInt (get_public_key B))) = Inr k \<and> length k = 32)
       \<and> shared_secret (fst (compute_shared_secret A (PInt (get_public_key B)))) =
           Some (G ^ (private_key A * private_key B) mod P)
       \<and> snd (compute_shared_secret dh (PInt y)) =
           Inr (sha256 (map of_nat (py_str_int (y ^ private_key dh mod P))))"
proof -
  have pub: "\<And>r. public_key (DiffieHellman_init r) = G ^ private_key (DiffieHellman_init r) mod P"
    by (simp add: DiffieHellman_init_def Let_def)
  have "public_key B ^ private_key A mod P = public_key A ^ private_key B mod P"
    unfolding A_def B_def pub by (rule dh_secret_commutes)
  moreover have "public_key B ^ private_key A mod P = G ^ (private_key A * private_key B) mod P"
    unfolding A_def B_def pub by (simp only: power_mod power_mult [symmetric] mult.commute)
  ultimately show ?thesis
    by (simp add: compute_shared_secret_int get_public_key_def length_sha256)
qed

text \<open>
  C8. For every draw \<open>r\<close> that \<open>secrets.randbelow(P - 2)\<close> can return, the private
  exponent lies in \<open>[1, P - 2]\<close> and the public value is \<open>G ^ private mod P\<close>, with
  \<open>G = 2\<close> and \<open>P\<close> the class constant, a 2048-bit number. The map from draws to
  private exponents is a bijection from the range of \<open>randbelow\<close> onto \<open>[1, P - 2]\<close>,
  so a uniform draw gives a uniform private exponent.
\<close>

theorem keygen_range:
  assumes "int r < P - 2"
  shows "1 \<le> int (private_key (DiffieHellman_init r))
       \<and> int (private_key (DiffieHellman_init r)) \<le> P - 2
       \<and> public_key (DiffieHellman_init r) = G ^ private_key (DiffieHellman_init r) mod P
       \<and> G = 2 \<and> 2 ^ 2047 \<le> P \<and> P < 2 ^ 2048
       \<and> bij_betw (\<lambda>d. private_key (DiffieHellman_init d))
             {d. int d < P - 2} {k. 1 \<le> int k \<and> int k \<le> P - 2}"
proof -
  have bits: "2 ^ 2047 \<le> P \<and> P < 2 ^ 2048"
    by (simp add: P_def)
  have "bij_betw (\<lambda>d. d + 1) {d. int d < P - 2} {k. 1 \<le> int k \<and> int k \<le> P - 2}"
    by (rule bij_betw_byWitness [where f' = "\<lambda>k. k - 1"]) auto
  then have "bij_betw (\<lambda>d. private_key (DiffieHellman_init d))
      {d. int d < P - 2} {k. 1 \<le> int k \<and> int k \<le> P - 2}"
    by (simp add: DiffieHellman_init_def Let_def)
  with assms bits show ?thesis
    by (simp add: DiffieHellman_init_def Let_def G_def)
qed

theorem keygen_range_witness:
  "int 0 < P - 2
   \<and> 1 \<le> int (private_key (DiffieHellman_init 0))
   \<and> int (private_key (DiffieHellman_init 0)) \<le> P - 2
   \<and> public_key (DiffieHellman_init 0) = 2"
proof -
  have h: "int 0 < P - 2"
    by (simp add: P_def)
  have "public_key (DiffieHellman_init 0) = 2"
    by (simp add: DiffieHellman_init_def G_def P_def)
  with h keygen_range [OF h] show ?thesis
    by simp
qed

text \<open>
  C9. \<open>get_shared_secret\<close> raises on a freshly generated instance, and raises exactly
  when no shared secret is stored; after \<open>compute_shared_secret\<close> has run on an integer
  it returns, without error, the same 32-byte key that call returned.
\<close>

theorem get_shared_secret_fail_fast:
  "get_shared_secret (DiffieHellman_init r) = Inl PyException
   \<and> isl (get_shared_secret dh) = (shared_secret dh = None)
   \<and> get_shared_secret (fst (compute_shared_secret dh (PInt y))) =
       snd (compute_shared_secret dh (PInt y))
   \<and> (\<exists>k. get_shared_secret (fst (compute_shared_secret dh (PInt y))) = Inr k \<and> length k = 32)"
  by (simp add: get_shared_secret_def DiffieHellman_init_def Let_def compute_shared_secret_int
      derive_key_eq length_sha256 split: option.split)

section \<open>Properties of the session registry\<close>

lemma session_inv_init: "session_inv SecureConnectionManager_init"
  by (simp add: session_inv_def SecureConnectionManager_init_def)

lemma session_inv_initiate:
  "session_inv m \<Longrightarrow> session_inv (fst (initiate_key_exchange m r a))"
  by (auto simp: session_inv_def initiate_key_exchange_def Let_def)

lemma session_inv_complete:
  "session_inv m \<Longrightarrow> session_inv (fst (complete_key_exchange m r token a pk))"
  by (auto simp: session_inv_def complete_key_exchange_def Let_def
      split: prod.splits sum.splits)

lemma session_inv_remove: "session_inv m \<Longrightarrow> session_inv (remove_peer m a)"
  by (auto simp: session_inv_def remove_peer_def)

lemma reachable_session_inv: "reachable m \<Longrightarrow> session_inv m"
  by (induction rule: reachable.induct)
     (simp_all add: session_inv_init session_inv_initiate session_inv_complete session_inv_remove)

text \<open>
  C10. Every peer with an entry in \<open>peer_keys\<close> has one in \<open>peer_dh\<close>: this holds of
  the initial manager, each of \<open>initiate_key_exchange\<close>, \<open>complete_key_exchange\<close>
  (whether it returns or raises) and \<open>remove_peer\<close> preserves it, and so it holds in
  every reachable state.
\<close>

theorem session_registry_invariant:
  "session_inv SecureConnectionManager_init
   \<and> (session_inv m \<longrightarrow>
        session_inv (fst (initiate_key_exchange m r a))
        \<and> session_inv (fst (complete_key_exchange m r token a pk))
        \<and> session_inv (remove_peer m a))
   \<and> (reachable m \<longrightarrow> dom (peer_keys m) \<subseteq> dom (peer_dh m))"
  using session_inv_init session_inv_initiate session_inv_complete session_inv_remove
    reachable_session_inv
  by (auto simp: session_inv_def)

theorem session_registry_invariant_witness:
  "reachable (fst (complete_key_exchange SecureConnectionManager_init 0 [] (KStr (u ''10.0.0.2:5000'')) (PInt 4)))
   \<and> session_inv (fst (complete_key_exchange SecureConnectionManager_init 0 [] (KStr (u ''10.0.0.2:5000'')) (PInt 4)))
   \<and> has_secure_connection
       (fst (complete_key_exchange SecureConnectionManager_init 0 [] (KStr (u ''10.0.0.2:5000'')) (PInt 4)))
       (KStr (u ''10.0.0.2:5000''))
   \<and> dom (peer_keys (fst (complete_key_exchange SecureConnectionManager_init 0 [] (KStr (u ''10.0.0.2:5000'')) (PInt 4))))
       \<subseteq> dom (peer_dh (fst (complete_key_exchange SecureConnectionManager_init 0 [] (KStr (u ''10.0.0.2:5000'')) (PInt 4))))"
proof -
  let ?m = "fst (complete_key_exchange SecureConnectionManager_init 0 [] (KStr (u ''10.0.0.2:5000'')) (PInt 4))"
  have r: "reachable ?m"
    by (rule r_complete [OF r_init])
  have h: "has_secure_connection ?m (KStr (u ''10.0.0.2:5000''))"
    by (simp add: has_secure_connection_def complete_key_exchange_def Let_def
        SecureConnectionManager_init_def compute_shared_secret_int)
  from session_registry_invariant [of ?m] r h show ?thesis
    by (simp add: session_inv_def)
qed

section \<open>Properties of the message layer\<close>

subsection \<open>Reading back an escaped string\<close>

lemma scanstring_quote: "scanstring (34 # s) = Inr ([], s)"
  by simp

lemma scanstring_plain:
  "c \<noteq> 34 \<Longrightarrow> c \<noteq> 92 \<Longrightarrow> 32 \<le> c \<Longrightarrow> scanstring (c # s) = str_cons c (scanstring s)"
  by simp

lemma scanstring_esc:
  "backslash e = Some ch \<Longrightarrow> e \<noteq> 117 \<Longrightarrow> scanstring (92 # e # s) = str_cons ch (scanstring s)"
  by simp

lemma scanstring_u_bmp:
  assumes "decode_hex4 a b c d = Some uni" and "uni < 0xD800 \<or> 0xDBFF < uni"
  shows "scanstring (92 # 117 # a # b # c # d # s) = str_cons uni (scanstring s)"
  using assms by (subst scanstring.simps) auto

lemma scanstring_u_pair:
  assumes "decode_hex4 a b c d = Some uni" and "0xD800 \<le> uni" and "uni \<le> 0xDBFF"
    and "decode_hex4 a2 b2 c2 d2 = Some uni2" and "0xDC00 \<le> uni2" and "uni2 \<le> 0xDFFF"
  shows "scanstring (92 # 117 # a # b # c # d # 92 # 117 # a2 # b2 # c2 # d2 # s) =
           str_cons (0x10000 + (uni - 0xD800) * 1024 + (uni2 - 0xDC00)) (scanstring s)"
  by (subst scanstring.simps) (simp add: assms)

declare scanstring.simps [simp del]

lemma hexval_hexchar: "d < 16 \<Longrightarrow> hexval (hexchar d) = Some d"
  by (auto simp: hexval_def hexchar_def)

lemma decode_hex4_hex4:
  assumes "n < 65536"
  shows "decode_hex4 (hexchar (n div 4096)) (hexchar ((n div 256) mod 16))
           (hexchar ((n div 16) mod 16)) (hexchar (n mod 16)) = Some n"
proof -
  have a: "n div 4096 < 16" using assms by simp
  have m1: "n mod 256 = 16 * (n div 16 mod 16) + n mod 16"
    using mod_mult2_eq [of n 16 16] by simp
  have m2: "n mod 4096 = 256 * (n div 256 mod 16) + n mod 256"
    using mod_mult2_eq [of n 256 16] by simp
  have m3: "n = 4096 * (n div 4096) + n mod 4096"
    by simp
  have e: "(n div 4096) * 4096 + ((n div 256) mod 16) * 256 + ((n div 16) mod 16) * 16 + n mod 16 = n"
    using m1 m2 m3 by linarith
  show ?thesis
    by (simp add: decode_hex4_def hexval_hexchar a e)
qed

lemma scanstring_escape_char:
  assumes "is_scalar c"
  shows "scanstring (escape_char c @ t) = str_cons c (scanstring t)"
proof -
  consider (two) "c = 34 \<or> c = 92 \<or> c = 10 \<or> c = 13 \<or> c = 9 \<or> c = 12 \<or> c = 8"
    | (plain) "32 \<le> c" "c \<le> 126" "c \<noteq> 34" "c \<noteq> 92"
    | (bmp) "c < 32 \<or> 126 < c" "c \<noteq> 10" "c \<noteq> 13" "c \<noteq> 9" "c \<noteq> 12" "c \<noteq> 8" "c < 0x10000"
    | (astral) "0x10000 \<le> c"
    by linarith
  then show ?thesis
  proof cases
    case two
    then show ?thesis
      by (elim disjE) (simp_all add: escape_char_def backslash_def scanstring_esc)
  next
    case plain
    then show ?thesis
      by (simp add: escape_char_def scanstring_plain)
  next
    case bmp
    from bmp(7) assms have ns: "c < 0xD800 \<or> 0xDBFF < c"
      by (auto simp: is_scalar_def)
    from bmp have esc: "escape_char c = 92 # 117 # hex4 c"
      by (auto simp: escape_char_def)
    show ?thesis
      by (simp add: esc hex4_def scanstring_u_bmp [OF decode_hex4_hex4 [OF bmp(7)] ns])
  next
    case astral
    define x where "x = c - 0x10000"
    from astral assms have x: "x < 1048576" "c = 0x10000 + x"
      by (simp_all add: is_scalar_def x_def)
    define hi where "hi = 0xD800 + (x div 1024) mod 1024"
    define lo where "lo = 0xDC00 + x mod 1024"
    have hi: "hi < 65536" "0xD800 \<le> hi" "hi \<le> 0xDBFF"
    proof -
      have "(x div 1024) mod 1024 < 1024" by simp
      then show "hi < 65536" "0xD800 \<le> hi" "hi \<le> 0xDBFF"
        unfolding hi_def by linarith+
    qed
    have lo: "lo < 65536" "0xDC00 \<le> lo" "lo \<le> 0xDFFF"
    proof -
      have "x mod 1024 < 1024" by simp
      then show "lo < 65536" "0xDC00 \<le> lo" "lo \<le> 0xDFFF"
        unfolding lo_def by linarith+
    qed
    have "x div 1024 < 1024"
      using x(1) by simp
    then have "(x div 1024) mod 1024 = x div 1024"
      by simp
    moreover have "x div 1024 * 1024 + x mod 1024 = x"
      by simp
    ultimately have join: "0x10000 + (hi - 0xD800) * 1024 + (lo - 0xDC00) = c"
      using x(2) by (simp add: hi_def lo_def)
    from astral have esc: "escape_char c = 92 # 117 # hex4 hi @ 92 # 117 # hex4 lo"
      by (simp add: escape_char_def hi_def lo_def x_def)
    show ?thesis
      using scanstring_u_pair [OF decode_hex4_hex4 [OF hi(1)] hi(2) hi(3) decode_hex4_hex4 [OF lo(1)] lo(2) lo(3), of t]
      by (simp add: esc hex4_def join)
  qed
qed

lemma scanstring_escaped:
  "valid_utf8 m \<Longrightarrow> scanstring (concat (map escape_char m) @ 34 # rest) = Inr (m, rest)"
proof (induction m)
  case Nil
  show ?case by (simp add: scanstring_quote)
next
  case (Cons c m)
  then show ?case
    by (simp add: valid_utf8_def scanstring_escape_char str_cons_def)
qed

lemma encode_utf8_valid: "valid_utf8 m \<Longrightarrow> \<exists>b. encode_utf8 m = Inr b"
proof (induction m)
  case Nil
  show ?case by simp
next
  case (Cons c m)
  then obtain b where b: "encode_utf8 m = Inr b"
    by (auto simp: valid_utf8_def)
  from Cons.prems have "is_scalar c"
    by (simp add: valid_utf8_def)
  then have "utf8_char c \<noteq> None"
    by (simp add: is_scalar_def utf8_char_def)
  then obtain bs where "utf8_char c = Some bs"
    by blast
  with b show ?case by simp
qed

lemma hexchar_scalar: "d < 16 \<Longrightarrow> hexchar d < 128"
  by (simp add: hexchar_def)

lemma hexdigest_ascii: "is_ascii (hexdigest bs)"
proof -
  have "\<And>b :: byte. unat b div 16 < 16"
  proof -
    fix b :: byte
    have "unat b < 2 ^ LENGTH(8)" by (rule unsigned_less)
    then show "unat b div 16 < 16" by simp
  qed
  then show ?thesis
    by (induction bs) (simp_all add: is_ascii_def hexdigest_def hexchar_scalar)
qed

lemma ascii_valid_utf8: "is_ascii s \<Longrightarrow> valid_utf8 s"
  by (induction s) (simp_all add: is_ascii_def valid_utf8_def is_scalar_def)

lemma scan_string_value:
  "valid_utf8 m \<Longrightarrow>
   scan_once (Suc k) (34 # (concat (map escape_char m) @ 34 # t)) = Inr (PStr m, t)"
  by (simp add: scanstring_escaped)

lemma str_cons_Inr: "str_cons c (Inr (t, r)) = Inr (c # t, r)"
  by (simp add: str_cons_def)

lemma loads_package:
  assumes m: "valid_utf8 m" and h: "valid_utf8 h"
  shows "json_loads (json_dumps (PDict [(u ''msg'', PStr m), (u ''hmac'', PStr h)])) =
           Inr (PDict [(u ''msg'', PStr m), (u ''hmac'', PStr h)])"
proof -
  define s where "s = json_dumps (PDict [(u ''msg'', PStr m), (u ''hmac'', PStr h)])"
  define t2 where "t2 = 44 # 32 # 34 # 104 # 109 # 97 # 99 # 34 # 58 # 32 # 34 #
      (concat (map escape_char h) @ [34, 125])"
  have s: "s = 123 # 34 # 109 # 115 # 103 # 34 # 58 # 32 # 34 #
      (concat (map escape_char m) @ 34 # t2)"
    by (simp add: s_def t2_def u_def encode_basestring_ascii_def escape_char_def)
  define k where "k = 2 * length s - 3"
  have "4 \<le> 2 * length s + 1"
    by (simp add: s)
  then have k: "2 * length s + 1 = Suc (Suc (Suc (Suc k)))"
    unfolding k_def by linarith
  have o2: "JSONObject_loop (Suc (Suc k)) [(u ''msg'', PStr m)]
              (104 # 109 # 97 # 99 # 34 # 58 # 32 # 34 # (concat (map escape_char h) @ [34, 125])) =
            Inr (PDict [(u ''msg'', PStr m), (u ''hmac'', PStr h)], [])"
    by (subst JSONObject_loop.simps(2))
       (simp add: scanstring_plain scanstring_quote str_cons_Inr skip_ws_def is_ws_def
          scan_string_value [OF h] dict_of_pairs_def u_def
          del: scan_once.simps JSONObject_loop.simps)
  have o1: "JSONObject_loop (Suc (Suc (Suc k))) []
              (109 # 115 # 103 # 34 # 58 # 32 # 34 # (concat (map escape_char m) @ 34 # t2)) =
            Inr (PDict [(u ''msg'', PStr m), (u ''hmac'', PStr h)], [])"
    using o2
    apply (subst JSONObject_loop.simps(2))
    apply (simp add: scanstring_plain scanstring_quote str_cons_Inr skip_ws_def is_ws_def
          scan_string_value [OF m] u_def
          del: scan_once.simps JSONObject_loop.simps)
    apply (simp add: t2_def skip_ws_def is_ws_def
          del: scan_once.simps JSONObject_loop.simps)
    done
  have top: "scan_once (2 * length s + 1) s = Inr (PDict [(u ''msg'', PStr m), (u ''hmac'', PStr h)], [])"
    unfolding k
    apply (subst scan_once.simps(2))
    apply (simp add: s skip_ws_def is_ws_def o1 del: scan_once.simps JSONObject_loop.simps)
    done
  have ws: "skip_ws s = s"
    by (simp add: s skip_ws_def is_ws_def)
  have bom: "take 1 s \<noteq> [0xFEFF]"
    by (simp add: s)
  show ?thesis
    unfolding s_def [symmetric] json_loads_def using top ws bom by (simp add: skip_ws_def)
qed


lemma create_hmac_valid:
  "valid_utf8 m \<Longrightarrow> \<exists>mac. create_hmac ms (PStr m) = Inr mac \<and> is_ascii mac"
  using encode_utf8_valid [of m] by (auto simp: create_hmac_def hexdigest_ascii)

text \<open>
  C6. For every message that is valid UTF-8 text and every key, \<open>package_message\<close>
  returns an envelope and \<open>unpackage_message\<close> of that envelope returns the message
  with \<open>True\<close>.
\<close>

theorem envelope_round_trip:
  assumes "valid_utf8 m"
  shows "\<exists>pkg. package_message ms (PStr m) = Inr pkg
           \<and> unpackage_message ms pkg = Inr (PStr m, True)"
proof -
  from create_hmac_valid [OF assms] obtain mac
    where mac: "create_hmac ms (PStr m) = Inr mac" and ascii: "is_ascii mac"
    by blast
  let ?pkg = "json_dumps (PDict [(u ''msg'', PStr m), (u ''hmac'', PStr mac)])"
  have pkg: "package_message ms (PStr m) = Inr ?pkg"
    by (simp add: package_message_def mac)
  have loads: "json_loads ?pkg = Inr (PDict [(u ''msg'', PStr m), (u ''hmac'', PStr mac)])"
    by (rule loads_package [OF assms ascii_valid_utf8 [OF ascii]])
  have verify: "verify_hmac ms (PStr m) (PStr mac) = Inr True"
    by (simp add: verify_hmac_def mac compare_digest_def ascii)
  have "unpackage_body ms ?pkg = Inr (PStr m, True)"
    unfolding unpackage_body_def loads by (simp add: py_getitem_def u_def verify)
  then have "unpackage_message ms ?pkg = Inr (PStr m, True)"
    by (simp add: unpackage_message_def)
  with pkg show ?thesis
    by blast
qed

theorem envelope_round_trip_witness:
  "valid_utf8 (u ''hello'')
   \<and> (\<exists>pkg. package_message \<lparr>shared_key = [1, 2, 3]\<rparr> (PStr (u ''hello'')) = Inr pkg
          \<and> unpackage_message \<lparr>shared_key = [1, 2, 3]\<rparr> pkg = Inr (PStr (u ''hello''), True))"
proof -
  have v: "valid_utf8 (u ''hello'')"
    by (simp add: valid_utf8_def is_scalar_def u_def)
  from v envelope_round_trip [OF v, of "\<lparr>shared_key = [1, 2, 3]\<rparr>"] show ?thesis
    by blast
qed

subsection \<open>Exceptions that leave \<open>verify_hmac\<close> and \<open>unpackage_message\<close>\<close>

lemmas scan_once_numeral =
  scan_once.simps(2) [where n = "pred_numeral k", folded numeral_eq_Suc]
  JSONObject_loop.simps(2) [where n = "pred_numeral k", folded numeral_eq_Suc]
  JSONArray_loop.simps(2) [where n = "pred_numeral k", folded numeral_eq_Suc]
  for k

lemmas scan_defs =
  json_loads_def skip_ws_def is_ws_def starts_with_def u_def match_number_def match_int_part_def
  match_frac_def match_exp_def is_digit_def Let_def scan_once_numeral

lemma loads_list1: "json_loads (u ''[1]'') = Inr (PList [PInt 1])"
  by (simp add: scan_defs)

lemma loads_num: "json_loads (u ''123'') = Inr (PInt 123)"
  by (simp add: scan_defs)

text \<open>
  What does hold of \<open>verify_hmac\<close>: on a message of valid UTF-8 text and an ASCII tag it
  returns whether the tag is the message's HMAC.
\<close>

lemma verify_hmac_ascii:
  assumes "valid_utf8 m" and "is_ascii t"
  shows "\<exists>mac. create_hmac ms (PStr m) = Inr mac
           \<and> verify_hmac ms (PStr m) (PStr t) = Inr (mac = t)"
  using create_hmac_valid [OF assms(1), of ms] assms(2)
  by (auto simp: verify_hmac_def compare_digest_def)

text \<open>
  C5. \<open>verify_hmac\<close> is not total: on the message \<open>"hi"\<close> and the one-character tag
  U+00E9, a \<open>str\<close> that is not ASCII, \<open>hmac.compare_digest\<close> raises TypeError instead of
  returning \<open>False\<close>; on a message holding the lone surrogate U+D800 the encoding to
  UTF-8 raises UnicodeEncodeError. This holds for every key.
\<close>

theorem verify_hmac_raises:
  "verify_hmac ms (PStr (u ''hi'')) (PStr [233]) = Inl TypeError
   \<and> verify_hmac ms (PStr [0xD800]) (PStr t) = Inl UnicodeEncodeError"
  by (simp add: verify_hmac_def create_hmac_def compare_digest_def is_ascii_def u_def utf8_char_def)

text \<open>
  What does hold of \<open>unpackage_message\<close>: text that is not JSON, and a JSON object
  without the key \<open>msg\<close>, give \<open>(None, False)\<close>.
\<close>

lemma unpackage_not_json:
  "json_loads s = Inl JSONDecodeError \<Longrightarrow> unpackage_message ms s = Inr (PNone, False)"
  by (simp add: unpackage_message_def unpackage_body_def)

lemma unpackage_no_msg_key:
  "json_loads s = Inr (PDict kvs) \<Longrightarrow> map_of kvs (u ''msg'') = None \<Longrightarrow>
   unpackage_message ms s = Inr (PNone, False)"
  by (simp add: unpackage_message_def unpackage_body_def py_getitem_def)

text \<open>
  C7. \<open>unpackage_message\<close> does not return \<open>(None, False)\<close> on every input that is not
  an envelope: on the JSON array \<open>[1]\<close> and on the JSON number \<open>123\<close> the subscription
  \<open>data["msg"]\<close> raises TypeError, which the handler (JSONDecodeError, KeyError) does
  not catch, so the exception leaves the method. This holds for every key.
\<close>

theorem unpackage_message_raises:
  "unpackage_message ms (u ''[1]'') = Inl TypeError
   \<and> unpackage_message ms (u ''123'') = Inl TypeError"
  by (simp add: unpackage_message_def unpackage_body_def loads_list1 loads_num py_getitem_def)

subsection \<open>The depth counter of the scanner\<close>

text \<open>
  Every call of the scanner consumes some of the text before it calls itself again, so a
  counter of twice the length of the text is never used up: \<open>json_loads\<close> does not
  answer RecursionError.
\<close>

lemma scan_ok_simps:
  "scan_ok (Inl e) s = (e \<noteq> RecursionError)"
  "scan_ok (Inr (v, r)) s = (length r < length s)"
  by (simp_all add: scan_ok_def)

lemma scan_ok_str_cons:
  "scan_ok (scanstring r) r \<Longrightarrow> length r < length s \<Longrightarrow> scan_ok (str_cons c (scanstring r)) s"
  by (auto simp: scan_ok_def str_cons_def split: sum.splits)

lemma scanstring_ok: "scan_ok (scanstring s) s"
proof (induction s rule: length_induct)
  case (1 s)
  then have ih: "\<And>r. length r < length s \<Longrightarrow> scan_ok (scanstring r) r"
    by blast
  show ?case
  proof (cases s)
    case Nil
    then show ?thesis by (simp add: scan_ok_simps scanstring.simps(1))
  next
    case (Cons c r)
    have sc: "\<And>r' k. length r' < length s \<Longrightarrow> scan_ok (str_cons k (scanstring r')) s"
      using ih scan_ok_str_cons by blast
    show ?thesis
      unfolding Cons scanstring.simps
      using sc [unfolded Cons]
      by (auto simp: scan_ok_simps split: list.splits option.splits)
  qed
qed

lemma skip_ws_le: "length (skip_ws s) \<le> length s"
  by (simp add: skip_ws_def length_dropWhile_le)

lemma skip_ws_Cons_less: "skip_ws r = d # r' \<Longrightarrow> length r' < length r"
  using skip_ws_le [of r] by simp

lemma match_frac_le: "match_frac s = (f, r) \<Longrightarrow> length r \<le> length s"
  using length_dropWhile_le [of is_digit "tl s"]
  by (auto simp: match_frac_def split: list.splits if_splits)

lemma match_exp_le: "match_exp s = (f, r) \<Longrightarrow> length r \<le> length s"
proof (cases s)
  case Nil
  assume "match_exp s = (f, r)"
  with Nil show ?thesis by (simp add: match_exp_def)
next
  case (Cons c t)
  assume m: "match_exp s = (f, r)"
  have a: "length (dropWhile is_digit t) \<le> length t"
    by (rule length_dropWhile_le)
  have b: "length (dropWhile is_digit (tl t)) \<le> length (tl t)"
    by (rule length_dropWhile_le)
  from m Cons a b show ?thesis
    by (auto simp: match_exp_def split: list.splits if_splits)
qed

lemma match_int_part_less: "match_int_part s = Some (ds, r) \<Longrightarrow> length r < length s"
  using length_dropWhile_le [of is_digit "tl s"]
  by (auto simp: match_int_part_def split: list.splits if_splits)

lemma match_number_less:
  assumes "match_number s = Some (res, rest)"
  shows "length rest < length s"
proof -
  define s0 where "s0 = (if (case s of [] \<Rightarrow> False | c # _ \<Rightarrow> c = 45) then tl s else s)"
  have s0: "length s0 \<le> length s"
    by (simp add: s0_def)
  from assms obtain ds r1 where i: "match_int_part s0 = Some (ds, r1)"
    by (auto simp: match_number_def Let_def s0_def split: option.splits)
  obtain frac r2 where f: "match_frac r1 = (frac, r2)"
    by (cases "match_frac r1")
  obtain ex r3 where e: "match_exp r2 = (ex, r3)"
    by (cases "match_exp r2")
  from assms i f e have "rest = r3"
    by (auto simp: match_number_def Let_def s0_def split: if_splits)
  with match_int_part_less [OF i] match_frac_le [OF f] match_exp_le [OF e] s0
  show ?thesis by simp
qed

lemma starts_with_length: "starts_with lit s \<Longrightarrow> length lit \<le> length s"
proof -
  assume "starts_with lit s"
  then have "length (take (length lit) s) = length (u lit)"
    by (simp add: starts_with_def)
  then show ?thesis
    by (simp add: u_def)
qed

lemma literal_ok:
  "starts_with lit s \<Longrightarrow> 0 < k \<Longrightarrow> length lit = k \<Longrightarrow> scan_ok (Inr (v, drop k s)) s"
  using starts_with_length [of lit s] by (simp add: scan_ok_simps)

lemma scan_once_ok:
  assumes obj: "\<And>ps t. 2 * length t + 1 \<le> n \<Longrightarrow> scan_ok (JSONObject_loop n ps t) t"
    and arr: "\<And>vs t. 2 * length t + 2 \<le> n \<Longrightarrow> scan_ok (JSONArray_loop n vs t) t"
    and n: "2 * length s + 1 \<le> Suc n"
  shows "scan_ok (scan_once (Suc n) s) s"
proof (cases s)
  case Nil
  then show ?thesis by (simp add: scan_ok_simps)
next
  case (Cons c r)
  have len: "length s = Suc (length r)"
    by (simp add: Cons)
  consider (str) "c = 34" | (ob) "c \<noteq> 34" "c = 123" | (ar) "c \<noteq> 34" "c \<noteq> 123" "c = 91"
    | (other) "c \<noteq> 34" "c \<noteq> 123" "c \<noteq> 91"
    by blast
  then show ?thesis
  proof cases
    case str
    have "scan_ok (scanstring r) r" by (rule scanstring_ok)
    then show ?thesis
      by (auto simp: Cons str scan_ok_def split: sum.splits)
  next
    case ob
    show ?thesis
    proof (cases "skip_ws r")
      case Nil
      then show ?thesis by (simp add: Cons ob scan_ok_simps)
    next
      case (Cons d r')
      have l: "length r' < length r"
        by (rule skip_ws_Cons_less [OF Cons])
      have "2 * length r' + 1 \<le> n"
        using n l len by linarith
      from obj [OF this, of "[]"] have o: "scan_ok (JSONObject_loop n [] r') r'" .
      have "scan_ok (JSONObject_loop n [] r') s"
        using o l len by (auto simp: scan_ok_def split: sum.splits)
      then show ?thesis
        using l by (simp add: \<open>s = c # r\<close> ob Cons scan_ok_simps)
    qed
  next
    case ar
    show ?thesis
    proof (cases "skip_ws r")
      case Nil
      then show ?thesis by (simp add: Cons ar scan_ok_simps)
    next
      case (Cons d r')
      have l: "length (d # r') \<le> length r"
        using skip_ws_le [of r] by (simp add: Cons)
      have "2 * length (d # r') + 2 \<le> n"
        using n l len by linarith
      from arr [OF this, of "[]"] have o: "scan_ok (JSONArray_loop n [] (d # r')) (d # r')" .
      have "scan_ok (JSONArray_loop n [] (d # r')) s"
        using o l len by (auto simp: scan_ok_def split: sum.splits)
      then show ?thesis
        using l by (simp add: \<open>s = c # r\<close> ar Cons scan_ok_simps)
    qed
  next
    case other
    have num: "\<And>res rest. match_number s = Some (res, rest) \<Longrightarrow>
        scan_ok (case res of Inl e \<Rightarrow> Inl e | Inr v \<Rightarrow> Inr (v, rest)) s"
    proof -
      fix res rest
      assume m: "match_number s = Some (res, rest)"
      have v: "\<And>e. res = Inl e \<Longrightarrow> e = ValueError"
        using m by (auto simp: match_number_def Let_def split: option.splits prod.splits if_splits)
      show "scan_ok (case res of Inl e \<Rightarrow> Inl e | Inr v \<Rightarrow> Inr (v, rest)) s"
        using match_number_less [OF m] v by (cases res) (auto simp: scan_ok_simps)
    qed
    have lit: "\<And>lit k v. starts_with lit s \<Longrightarrow> 0 < k \<Longrightarrow> length lit = k \<Longrightarrow>
        scan_ok (Inr (v, drop k s)) s"
      by (rule literal_ok)
    have "scan_once (Suc n) (c # r) =
       (if starts_with ''null'' (c # r) then Inr (PNone, drop 4 (c # r))
        else if starts_with ''true'' (c # r) then Inr (PBool True, drop 4 (c # r))
        else if starts_with ''false'' (c # r) then Inr (PBool False, drop 5 (c # r))
        else
          (case match_number (c # r) of
             Some (res, rest) \<Rightarrow> (case res of Inl e \<Rightarrow> Inl e | Inr v \<Rightarrow> Inr (v, rest))
           | None \<Rightarrow>
               if starts_with ''NaN'' (c # r) then Inr (PFloat (u ''NaN''), drop 3 (c # r))
               else if starts_with ''Infinity'' (c # r)
               then Inr (PFloat (u ''Infinity''), drop 8 (c # r))
               else if starts_with ''-Infinity'' (c # r)
               then Inr (PFloat (u ''-Infinity''), drop 9 (c # r))
               else Inl JSONDecodeError))"
      using other by simp
    then have eq: "scan_once (Suc n) s =
       (if starts_with ''null'' s then Inr (PNone, drop 4 s)
        else if starts_with ''true'' s then Inr (PBool True, drop 4 s)
        else if starts_with ''false'' s then Inr (PBool False, drop 5 s)
        else
          (case match_number s of
             Some (res, rest) \<Rightarrow> (case res of Inl e \<Rightarrow> Inl e | Inr v \<Rightarrow> Inr (v, rest))
           | None \<Rightarrow>
               if starts_with ''NaN'' s then Inr (PFloat (u ''NaN''), drop 3 s)
               else if starts_with ''Infinity'' s then Inr (PFloat (u ''Infinity''), drop 8 s)
               else if starts_with ''-Infinity'' s then Inr (PFloat (u ''-Infinity''), drop 9 s)
               else Inl JSONDecodeError))"
      unfolding Cons .
    show ?thesis
      unfolding eq
      using num lit [of "''null''" 4] lit [of "''true''" 4] lit [of "''false''" 5]
        lit [of "''NaN''" 3] lit [of "''Infinity''" 8] lit [of "''-Infinity''" 9]
      by (auto simp: scan_ok_simps split: option.splits)
  qed
qed


lemma scan_ok_mono: "scan_ok res t \<Longrightarrow> length t \<le> length s \<Longrightarrow> scan_ok res s"
  by (auto simp: scan_ok_def split: sum.splits)

lemma JSONObject_loop_ok:
  assumes once: "\<And>t. 2 * length t + 1 \<le> n \<Longrightarrow> scan_ok (scan_once n t) t"
    and obj: "\<And>ps t. 2 * length t + 1 \<le> n \<Longrightarrow> scan_ok (JSONObject_loop n ps t) t"
    and n: "2 * length s + 1 \<le> Suc n"
  shows "scan_ok (JSONObject_loop (Suc n) ps s) s"
proof (cases "scanstring s")
  case (Inl e)
  with scanstring_ok [of s] show ?thesis
    by (simp add: scan_ok_simps)
next
  case (Inr kr)
  obtain key r where kr: "kr = (key, r)"
    by (cases kr)
  have lr: "length r < length s"
    using scanstring_ok [of s] by (simp add: Inr kr scan_ok_simps)
  show ?thesis
  proof (cases "skip_ws r")
    case Nil
    then show ?thesis by (simp add: Inr kr scan_ok_simps)
  next
    case (Cons c r1)
    have l1: "length r1 < length r"
      by (rule skip_ws_Cons_less [OF Cons])
    let ?t = "skip_ws r1"
    have lt: "length ?t \<le> length r1"
      by (rule skip_ws_le)
    have "2 * length ?t + 1 \<le> n"
      using n lr l1 lt by linarith
    note o = once [OF this]
    show ?thesis
    proof (cases "c = 58")
      case False
      then show ?thesis by (simp add: Inr kr Cons scan_ok_simps)
    next
      case True
      show ?thesis
      proof (cases "scan_once n ?t")
        case (Inl e)
        with o show ?thesis
          by (simp add: \<open>scanstring s = Inr kr\<close> kr Cons True scan_ok_simps)
      next
        case (Inr vr)
        obtain v r2 where vr: "vr = (v, r2)"
          by (cases vr)
        have l2: "length r2 < length ?t"
          using o by (simp add: Inr vr scan_ok_simps)
        show ?thesis
        proof (cases "skip_ws r2")
          case Nil
          then show ?thesis
            by (simp add: \<open>scanstring s = Inr kr\<close> kr Cons True Inr vr scan_ok_simps)
        next
          case (Cons d r3)
          have l3: "length r3 < length r2"
            by (rule skip_ws_Cons_less [OF Cons])
          have l3s: "length r3 < length s"
            using l3 l2 lt l1 lr by linarith
          show ?thesis
          proof (cases "skip_ws r3")
            case Nil
            then show ?thesis
              using l3s
              by (simp add: \<open>scanstring s = Inr kr\<close> kr \<open>skip_ws r = c # r1\<close> True Inr vr Cons
                  scan_ok_simps)
          next
            case (Cons q r4)
            have l4: "length r4 < length r3"
              by (rule skip_ws_Cons_less [OF Cons])
            have "2 * length r4 + 1 \<le> n"
              using n l4 l3s by linarith
            from obj [OF this, of "ps @ [(key, v)]"]
            have "scan_ok (JSONObject_loop n (ps @ [(key, v)]) r4) s"
              using l4 l3s by (auto intro: scan_ok_mono)
            then show ?thesis
              using l3s
              by (simp add: \<open>scanstring s = Inr kr\<close> kr \<open>skip_ws r = c # r1\<close> True Inr vr
                  \<open>skip_ws r2 = d # r3\<close> Cons scan_ok_simps)
          qed
        qed
      qed
    qed
  qed
qed

lemma JSONArray_loop_ok:
  assumes once: "\<And>t. 2 * length t + 1 \<le> n \<Longrightarrow> scan_ok (scan_once n t) t"
    and arr: "\<And>vs t. 2 * length t + 2 \<le> n \<Longrightarrow> scan_ok (JSONArray_loop n vs t) t"
    and n: "2 * length s + 2 \<le> Suc n"
  shows "scan_ok (JSONArray_loop (Suc n) vs s) s"
proof -
  have "2 * length s + 1 \<le> n"
    using n by linarith
  note o = once [OF this]
  show ?thesis
  proof (cases "scan_once n s")
    case (Inl e)
    with o show ?thesis by (simp add: scan_ok_simps)
  next
    case (Inr vr)
    obtain v r where vr: "vr = (v, r)"
      by (cases vr)
    have lr: "length r < length s"
      using o by (simp add: Inr vr scan_ok_simps)
    show ?thesis
    proof (cases "skip_ws r")
      case Nil
      then show ?thesis by (simp add: Inr vr scan_ok_simps)
    next
      case (Cons d r1)
      have l1: "length r1 < length r"
        by (rule skip_ws_Cons_less [OF Cons])
      let ?t = "skip_ws r1"
      have lt: "length ?t \<le> length r1"
        by (rule skip_ws_le)
      have "2 * length ?t + 2 \<le> n"
        using n lr l1 lt by linarith
      from arr [OF this, of "vs @ [v]"]
      have "scan_ok (JSONArray_loop n (vs @ [v]) ?t) s"
        using lt l1 lr by (auto intro: scan_ok_mono)
      then show ?thesis
        using l1 lr by (simp add: Inr vr Cons scan_ok_simps)
    qed
  qed
qed

lemma scan_fuel:
  "(\<forall>s. 2 * length s + 1 \<le> n \<longrightarrow> scan_ok (scan_once n s) s)
   \<and> (\<forall>ps s. 2 * length s + 1 \<le> n \<longrightarrow> scan_ok (JSONObject_loop n ps s) s)
   \<and> (\<forall>vs s. 2 * length s + 2 \<le> n \<longrightarrow> scan_ok (JSONArray_loop n vs s) s)"
proof (induction n)
  case 0
  show ?case by simp
next
  case (Suc n)
  from Suc have once: "\<And>t. 2 * length t + 1 \<le> n \<Longrightarrow> scan_ok (scan_once n t) t"
    by blast
  from Suc have obj: "\<And>ps t. 2 * length t + 1 \<le> n \<Longrightarrow> scan_ok (JSONObject_loop n ps t) t"
    by blast
  from Suc have arr: "\<And>vs t. 2 * length t + 2 \<le> n \<Longrightarrow> scan_ok (JSONArray_loop n vs t) t"
    by blast
  have a: "\<And>s. 2 * length s + 1 \<le> Suc n \<Longrightarrow> scan_ok (scan_once (Suc n) s) s"
    by (rule scan_once_ok [OF obj arr])
  have b: "\<And>ps s. 2 * length s + 1 \<le> Suc n \<Longrightarrow> scan_ok (JSONObject_loop (Suc n) ps s) s"
    by (rule JSONObject_loop_ok [OF once obj])
  have c: "\<And>vs s. 2 * length s + 2 \<le> Suc n \<Longrightarrow> scan_ok (JSONArray_loop (Suc n) vs s) s"
    by (rule JSONArray_loop_ok [OF once arr])
  show ?case
    by (intro conjI allI impI) (erule a b c)+
qed

lemma loads_result:
  "scan_ok res t \<Longrightarrow>
   (case res of Inl e \<Rightarrow> Inl e
    | Inr (v, rest) \<Rightarrow> if skip_ws rest = [] then Inr v else Inl JSONDecodeError) \<noteq>
   Inl RecursionError"
  by (auto simp: scan_ok_def split: sum.splits)

lemma json_loads_fuel: "json_loads s \<noteq> Inl RecursionError"
proof -
  have "2 * length (skip_ws s) + 1 \<le> 2 * length s + 1"
    using skip_ws_le [of s] by simp
  with scan_fuel [of "2 * length s + 1"]
  have "scan_ok (scan_once (2 * length s + 1) (skip_ws s)) (skip_ws s)"
    by blast
  from loads_result [OF this] show ?thesis
    unfolding json_loads_def by (simp del: scan_once.simps)
qed

section \<open>Properties of the receive loop and of \<open>connect\<close>\<close>

subsection \<open>The receive loop leaves the registries alone\<close>

lemma unat_of_nat_byte: "c < 256 \<Longrightarrow> unat (of_nat c :: byte) = c"
  by (simp add: unat_of_nat)

lemma decode_utf8_ascii: "is_ascii s \<Longrightarrow> decode_utf8 (map of_nat s) = Inr s"
proof -
  assume a: "is_ascii s"
  have "map unat (map of_nat s :: bytes) = s"
    using a by (induction s) (simp_all add: is_ascii_def unat_of_nat_byte)
  moreover have "utf8_dec s = Inr s"
    using a by (induction s) (simp_all add: is_ascii_def dec_cons_def)
  ultimately show ?thesis
    by (simp add: decode_utf8_def)
qed

lemma process_message_frame:
  "manager (process_message w conn t) = manager w
   \<and> peers (process_message w conn t) = peers w
   \<and> closed_socks (process_message w conn t) = closed_socks w
   \<and> connections (process_message w conn t) = connections w"
  by (simp add: process_message_def show_and_log_def handle_peer_peer_addr_def Let_def
      split: option.split sum.split prod.split)

lemma receive_loop_frame:
  "receive_loop w conn evs = (w', ex) \<Longrightarrow>
   manager w' = manager w \<and> peers w' = peers w \<and> closed_socks w' = closed_socks w"
proof (induction w conn evs rule: receive_loop.induct)
  case (1 w conn)
  then show ?case by simp
next
  case (2 w conn e evs)
  then show ?case by simp
next
  case (3 w conn data evs)
  show ?case
  proof (cases "data = []")
    case True
    with 3 show ?thesis by simp
  next
    case False
    show ?thesis
    proof (cases "decode_utf8 data")
      case (Inl e)
      with False 3 show ?thesis by simp
    next
      case (Inr msg_data)
      show ?thesis
      proof (cases "msg_data = u ''__DISCONNECT__''")
        case True
        with False Inr 3 show ?thesis by auto
      next
        case ne: False
        from 3(2) False Inr ne
        have "receive_loop (process_message w conn msg_data) conn evs = (w', ex)"
          by simp
        from 3(1) [OF False Inr ne this] show ?thesis
          by (simp add: process_message_frame)
      qed
    qed
  qed
qed

lemma handle_peer_exit:
  assumes "handle_peer w conn evs = (w', st)" and "st \<noteq> Running"
  shows "st = Died NameError \<and> peers w' = peers w \<and> manager w' = manager w
         \<and> closed_socks w' = insert conn (closed_socks w)"
proof -
  obtain w1 ex where r: "receive_loop w conn evs = (w1, ex)"
    by (cases "receive_loop w conn evs")
  note f = receive_loop_frame [OF r]
  from assms r f show ?thesis
    by (cases ex) (auto simp: handle_peer_def finally_block_def handle_peer_peer_addr_def Let_def)
qed

lemma tuple_to_socket_addr0: "tuple_to_socket addr0 = peer0"
  by (simp add: addr0_def peer0_def tuple_to_socket_def py_str_int_def digits10.simps u_def)

lemma w_est_session:
  "peer_keys (manager w_est) =
     [KStr peer0 \<mapsto> \<lparr>shared_key = sha256 (map of_nat (py_str_int (4 ^ 1 mod P)))\<rparr>]
   \<and> dom (peer_dh (manager w_est)) = {KStr peer0}
   \<and> peers w_est = {peer0} \<and> closed_socks w_est = {} \<and> console w_est = [] \<and> logged w_est = []"
  by (simp add: w_est_def handle_key_exchange_def hello_def py_getitem_def tuple_to_socket_addr0
      initiate_key_exchange_def complete_key_exchange_def compute_shared_secret_int Let_def
      node_init_def SecureConnectionManager_init_def DiffieHellman_init_def MessageSecurity_init_def
      length_sha256 u_def)

lemma sentinel_ascii: "is_ascii (u ''__DISCONNECT__'')" "u ''__DISCONNECT__'' \<noteq> []"
  by (simp_all add: is_ascii_def u_def)

text \<open>
  C3. The cleanup does not run on any exit of the receive loop. For the node with an
  established session for the peer and the peer in the registry, after the disconnect
  sentinel, after a zero-length read and after an I/O error alike, the socket is closed
  and the thread dies with NameError at \<open>peersdb.remove(peer_addr)\<close>: the peer is still
  in \<open>peersdb.peers\<close> and its entries are still in \<open>peer_keys\<close> and \<open>peer_dh\<close>. Lemma
  \<open>handle_peer_exit\<close> shows the same of every node and every exit.
\<close>

theorem handle_peer_skips_cleanup:
  "handle_peer w_est 7 [RecvData (map of_nat (u ''__DISCONNECT__''))] =
     (w_est\<lparr>closed_socks := {7}, console := [PeerClosedNotice]\<rparr>, Died NameError)
   \<and> handle_peer w_est 7 [RecvData []] = (w_est\<lparr>closed_socks := {7}\<rparr>, Died NameError)
   \<and> handle_peer w_est 7 [RecvError OSError] =
     (w_est\<lparr>closed_socks := {7}, console := [ProcessingError OSError]\<rparr>, Died NameError)
   \<and> peer0 \<in> peers (w_est\<lparr>closed_socks := {7}\<rparr>)
   \<and> has_secure_connection (manager (w_est\<lparr>closed_socks := {7}\<rparr>)) (KStr peer0)
   \<and> KStr peer0 \<in> dom (peer_dh (manager (w_est\<lparr>closed_socks := {7}\<rparr>)))"
  using w_est_session
  by (simp add: handle_peer_def finally_block_def handle_peer_peer_addr_def Let_def
      decode_utf8_ascii [OF sentinel_ascii(1)] sentinel_ascii(2) has_secure_connection_def)

subsection \<open>A tampered envelope\<close>

lemma length_hexdigest: "length (hexdigest bs) = 2 * length bs"
  by (induction bs) (simp_all add: hexdigest_def)

lemma length_hmac_sha256: "length (hmac_sha256 k m) = 32"
  by (simp add: hmac_sha256_def Let_def length_sha256)

lemma tampered_rejected: "unpackage_message sec tampered = Inr (PStr (u ''pay 100''), False)"
proof -
  have v: "valid_utf8 (u ''pay 100'')" "valid_utf8 (u ''00'')"
    by (simp_all add: valid_utf8_def is_scalar_def u_def)
  have loads: "json_loads tampered =
      Inr (PDict [(u ''msg'', PStr (u ''pay 100'')), (u ''hmac'', PStr (u ''00''))])"
    unfolding tampered_def by (rule loads_package [OF v])
  obtain mac where mac: "create_hmac sec (PStr (u ''pay 100'')) = Inr mac" "is_ascii mac"
    using create_hmac_valid [OF v(1)] by blast
  from mac(1) have "length mac = 64"
    by (auto simp: create_hmac_def length_hexdigest length_hmac_sha256 split: sum.splits)
  then have ne: "mac \<noteq> u ''00''"
    by (auto simp: u_def)
  have a: "is_ascii (u ''00'')"
    by (simp add: is_ascii_def u_def)
  have "verify_hmac sec (PStr (u ''pay 100'')) (PStr (u ''00'')) = Inr False"
    by (simp add: verify_hmac_def mac compare_digest_def a ne)
  then have "unpackage_body sec tampered = Inr (PStr (u ''pay 100''), False)"
    unfolding unpackage_body_def loads by (simp add: py_getitem_def u_def)
  then show ?thesis
    by (simp add: unpackage_message_def)
qed

lemma tampered_text:
  "is_ascii tampered" "tampered \<noteq> u ''__DISCONNECT__''" "tampered \<noteq> []"
  by (simp_all add: tampered_def u_def encode_basestring_ascii_def escape_char_def is_ascii_def)

text \<open>
  C2. The receive loop does not raise the alert. The node holds a session for the peer
  under its address string, and under that session the envelope does not verify; but the
  loop looks the session up under the socket object, finds none, and prints the received
  text as it is: nothing but that \<open>ShowMessage\<close> is added to the console, and nothing is
  logged.
\<close>

theorem receive_loop_shows_tampered:
  "(\<exists>sec. get_security (manager w_est) (KStr peer0) = Some sec
          \<and> unpackage_message sec tampered = Inr (PStr (u ''pay 100''), False))
   \<and> get_security (manager w_est) (KSock 7) = None
   \<and> receive_loop w_est 7 [RecvData (map of_nat tampered)] =
       (w_est\<lparr>console := [ShowMessage (PStr tampered)]\<rparr>, Waiting)"
  using w_est_session tampered_text
  by (simp add: get_security_def tampered_rejected process_message_def
      decode_utf8_ascii [OF tampered_text(1)])

subsection \<open>A failed key exchange\<close>

text \<open>
  What \<open>_exchange_keys\<close> does to the session registry, whatever the peer replies.
\<close>

lemma py_print_raised: "py_print v = Inl x \<Longrightarrow> x = UnicodeEncodeError"
  by (auto simp: py_print_def split: pyval.splits if_splits)

lemma compute_shared_secret_keys:
  "private_key (fst (compute_shared_secret d pk)) = private_key d
   \<and> public_key (fst (compute_shared_secret d pk)) = public_key d"
  by (simp add: compute_shared_secret_def split: sum.split)

lemma complete_dh_entry:
  assumes "peer_dh m pa = Some d"
  shows "map_option private_key (peer_dh (fst (complete_key_exchange m r t pa pk)) pa) =
           Some (private_key d)"
    and "map_option public_key (peer_dh (fst (complete_key_exchange m r t pa pk)) pa) =
           Some (public_key d)"
  using assms compute_shared_secret_keys [of d pk]
  by (auto simp: complete_key_exchange_def split: prod.splits sum.splits)

lemma complete_dh_others:
  "(peer_dh (fst (complete_key_exchange m r t pa pk)))(pa := None) = (peer_dh m)(pa := None)"
  by (simp add: complete_key_exchange_def Let_def split: prod.split sum.split)

lemma complete_keys_others:
  "(peer_keys (fst (complete_key_exchange m r t pa pk)))(pa := None) = (peer_keys m)(pa := None)"
  by (simp add: complete_key_exchange_def Let_def split: prod.split sum.split)

lemma complete_raised_keys:
  "snd (complete_key_exchange m r t pa pk) = Inl x \<Longrightarrow>
   peer_keys (fst (complete_key_exchange m r t pa pk)) = peer_keys m"
  by (auto simp: complete_key_exchange_def Let_def split: prod.splits sum.splits)

lemma initiate_dh:
  "peer_dh (fst (initiate_key_exchange m r pa)) = (peer_dh m)(pa \<mapsto> DiffieHellman_init r)"
  "peer_keys (fst (initiate_key_exchange m r pa)) = peer_keys m"
  by (simp_all add: initiate_key_exchange_def Let_def)

lemma init_keys:
  "private_key (DiffieHellman_init r) = r + 1"
  "public_key (DiffieHellman_init r) = G ^ (r + 1) mod P"
  by (simp_all add: DiffieHellman_init_def Let_def)

text \<open>The last branch of \<open>_exchange_keys\<close>, by the components of what
  \<open>complete_key_exchange\<close> returns.\<close>

lemma completed_branch:
  "(case complete_key_exchange m r t pa pk of
      (m2, Inl x) \<Rightarrow> (w\<lparr>manager := m2\<rparr>, Inl x)
    | (m2, Inr _) \<Rightarrow> (w\<lparr>manager := m2\<rparr>, py_print un)) =
   (w\<lparr>manager := fst (complete_key_exchange m r t pa pk)\<rparr>,
    case snd (complete_key_exchange m r t pa pk) of Inl x \<Rightarrow> Inl x | Inr _ \<Rightarrow> py_print un)"
  by (simp split: prod.split sum.split)

lemmas exchange_keys_unfold = exchange_keys_def [unfolded Let_def completed_branch]

lemma exchange_keys_frame:
  "connections (fst (exchange_keys w e pa)) = connections w"
  "concount (fst (exchange_keys w e pa)) = concount w"
  "peers (fst (exchange_keys w e pa)) = peers w"
  by (simp_all add: exchange_keys_unfold
      split: io_result.split recv_result.split sum.split)

lemma complete_after_initiate:
  "map_option private_key
     (peer_dh (fst (complete_key_exchange (fst (initiate_key_exchange m r pa)) r' t pa pk)) pa) =
   Some (r + 1)"
  "map_option public_key
     (peer_dh (fst (complete_key_exchange (fst (initiate_key_exchange m r pa)) r' t pa pk)) pa) =
   Some (G ^ (r + 1) mod P)"
  using complete_dh_entry [of "fst (initiate_key_exchange m r pa)" pa "DiffieHellman_init r" r' t pk]
  by (simp_all add: initiate_dh init_keys del: map_option_eq_Some)

lemma exchange_keys_dh:
  "map_option private_key (peer_dh (manager (fst (exchange_keys w e pa))) (KStr pa)) =
     Some (dh_draw e + 1)"
  "map_option public_key (peer_dh (manager (fst (exchange_keys w e pa))) (KStr pa)) =
     Some (G ^ (dh_draw e + 1) mod P)"
  by (simp_all add: exchange_keys_unfold initiate_dh init_keys complete_after_initiate
      del: map_option_eq_Some split: io_result.split recv_result.split sum.split)

lemma exchange_keys_others:
  "(peer_dh (manager (fst (exchange_keys w e pa))))(KStr pa := None) =
     (peer_dh (manager w))(KStr pa := None)"
  "(peer_keys (manager (fst (exchange_keys w e pa))))(KStr pa := None) =
     (peer_keys (manager w))(KStr pa := None)"
  by (simp_all add: exchange_keys_unfold initiate_dh complete_dh_others complete_keys_others
      split: io_result.split recv_result.split sum.split)

lemma exchange_keys_raised_keys:
  assumes "snd (exchange_keys w e pa) = Inl x" and "x \<noteq> UnicodeEncodeError"
  shows "peer_keys (manager (fst (exchange_keys w e pa))) = peer_keys (manager w)"
  using assms
  by (auto simp: exchange_keys_unfold initiate_dh complete_raised_keys
      split: io_result.splits recv_result.splits sum.splits if_splits dest: py_print_raised)


lemma loads_oops: "json_loads (u ''oops'') = Inl JSONDecodeError"
  by (simp add: scan_defs)

lemma oops_ascii: "is_ascii (u ''oops'')"
  by (simp add: is_ascii_def u_def)

lemma loads_wrong_type: "json_loads wrong_type_reply = Inr (PDict [(u ''type'', PStr (u ''HELLO''))])"
  by (simp add: wrong_type_reply_def encode_basestring_ascii_def escape_char_def scan_defs
      scanstring_plain scanstring_quote str_cons_Inr dict_of_pairs_def)

lemma wrong_type_ascii: "is_ascii wrong_type_reply"
  by (simp add: wrong_type_reply_def encode_basestring_ascii_def escape_char_def is_ascii_def u_def)

lemma exchange_keys_other_type:
  assumes "send_key e = IoOk" and "reply e = RecvData data" and "decode_utf8 data = Inr body"
    and "\<not> depth_exceeded e"
    and "json_loads body = Inr pkg" and "py_getitem pkg (u ''type'') = Inr ty"
    and "ty \<noteq> PStr (u ''DH_KEY_EXCHANGE'')"
  shows "exchange_keys w e pa =
           (w\<lparr>manager := (manager w)\<lparr>peer_dh := (peer_dh (manager w))(KStr pa \<mapsto> DiffieHellman_init (dh_draw e))\<rparr>\<rparr>,
            Inr ())"
  using assms by (simp add: exchange_keys_def initiate_key_exchange_def Let_def)

lemma wrong_type_facts:
  "send_key env_wrong_type = IoOk"
  "reply env_wrong_type = RecvData (map of_nat wrong_type_reply)"
  "decode_utf8 (map of_nat wrong_type_reply) = Inr wrong_type_reply"
  "\<not> depth_exceeded env_wrong_type"
  "py_getitem (PDict [(u ''type'', PStr (u ''HELLO''))]) (u ''type'') = Inr (PStr (u ''HELLO''))"
  "PStr (u ''HELLO'') \<noteq> PStr (u ''DH_KEY_EXCHANGE'')"
  "send_peers env_wrong_type = IoOk"
  by (simp_all add: env_wrong_type_def env_not_json_def decode_utf8_ascii [OF wrong_type_ascii]
      py_getitem_def u_def)

text \<open>
  C4 as stated fails. After a reply that is not JSON the exchange raises, yet the
  \<open>DiffieHellman\<close> that \<open>initiate_key_exchange\<close> stored for the peer is still in
  \<open>peer_dh\<close>; and after a reply of another message type the exchange does not raise
  at all: \<open>connect\<close> goes on to register the connection and the peer, with no session
  key.
\<close>

theorem connect_keeps_partial_session:
  "snd (exchange_keys node_init env_not_json peer0) = Inl JSONDecodeError
   \<and> peer_dh (manager (connect node_init env_not_json addr0)) (KStr peer0) = Some (DiffieHellman_init 0)
   \<and> snd (exchange_keys node_init env_wrong_type peer0) = Inr ()
   \<and> connections (connect node_init env_wrong_type addr0) = {7}
   \<and> peers (connect node_init env_wrong_type addr0) = {peer0}
   \<and> get_security (manager (connect node_init env_wrong_type addr0)) (KStr peer0) = None"
proof -
  have a: "exchange_keys node_init env_not_json peer0 =
      (node_init\<lparr>manager := (manager node_init)\<lparr>peer_dh := (peer_dh (manager node_init))(KStr peer0 \<mapsto> DiffieHellman_init 0)\<rparr>\<rparr>,
       Inl JSONDecodeError)"
    by (simp add: exchange_keys_def env_not_json_def initiate_key_exchange_def Let_def
        decode_utf8_ascii [OF oops_ascii] loads_oops)
  have b: "exchange_keys node_init env_wrong_type peer0 =
      (node_init\<lparr>manager := (manager node_init)\<lparr>peer_dh := (peer_dh (manager node_init))(KStr peer0 \<mapsto> DiffieHellman_init 0)\<rparr>\<rparr>,
       Inr ())"
    using exchange_keys_other_type [OF wrong_type_facts(1,2,3,4) loads_wrong_type wrong_type_facts(5,6),
        of node_init peer0]
    by (simp add: env_wrong_type_def env_not_json_def)
  have lo: "fst addr0 \<noteq> u ''127.0.0.1''" "fst addr0 \<noteq> u ''127.0.1.1''"
    by (simp_all add: addr0_def u_def)
  have t: "tls env_not_json = IoOk" "tls env_wrong_type = IoOk"
    "conn_id env_not_json = 7" "conn_id env_wrong_type = 7" "send_peers env_wrong_type = IoOk"
    by (simp_all add: env_not_json_def env_wrong_type_def)
  have c1: "connect node_init env_not_json addr0 =
      node_init\<lparr>manager := (manager node_init)\<lparr>peer_dh := (peer_dh (manager node_init))(KStr peer0 \<mapsto> DiffieHellman_init 0)\<rparr>\<rparr>"
    by (simp add: connect_def lo t tuple_to_socket_addr0 a connect_failed_def Let_def)
       (simp add: node_init_def)
  have c2: "connect node_init env_wrong_type addr0 =
      node_init\<lparr>manager := (manager node_init)\<lparr>peer_dh := (peer_dh (manager node_init))(KStr peer0 \<mapsto> DiffieHellman_init 0)\<rparr>,
                connections := {7}, concount := 1, peers := {peer0}\<rparr>"
    by (simp add: connect_def lo t tuple_to_socket_addr0 b Let_def) (simp add: node_init_def)
  show ?thesis
    unfolding a b c1 c2
    by (simp add: get_security_def node_init_def SecureConnectionManager_init_def)
qed

text \<open>
  The last statement of the key-exchange branch prints the user name the peer sent. When
  that name holds a lone surrogate the print raises, after \<open>complete_key_exchange\<close> has
  installed the session key: the exchange fails with the key in \<open>peer_keys\<close>.
\<close>

lemma scanstring_u_lone:
  assumes "decode_hex4 a b c d = Some uni" and "b1 \<noteq> 92"
  shows "scanstring (92 # 117 # a # b # c # d # b1 # u1 # s) =
           str_cons uni (scanstring (b1 # u1 # s))"
  using assms by (subst scanstring.simps) auto

lemma loads_surrogate:
  "json_loads surrogate_reply =
     Inr (PDict [(u ''type'', PStr (u ''DH_KEY_EXCHANGE'')), (u ''public_key'', PInt 4),
                 (u ''username'', PStr [0xD800])])"
  by (simp add: surrogate_reply_def encode_basestring_ascii_def escape_char_def hex4_def
      hexchar_def py_str_int_def digits10.simps scan_defs
      scanstring_plain scanstring_quote scanstring_u_lone decode_hex4_def hexval_def
      str_cons_Inr dict_of_pairs_def)


lemma surrogate_ascii: "is_ascii surrogate_reply"
  by (simp add: surrogate_reply_def encode_basestring_ascii_def escape_char_def hex4_def
      hexchar_def py_str_int_def digits10.simps is_ascii_def u_def)

lemma exchange_keys_print_raises:
  "snd (exchange_keys node_init env_surrogate peer0) = Inl UnicodeEncodeError
   \<and> peer_keys (manager (connect node_init env_surrogate addr0)) (KStr peer0) =
       Some \<lparr>shared_key = sha256 (map of_nat (py_str_int (4 ^ 1 mod P)))\<rparr>
   \<and> connections (connect node_init env_surrogate addr0) = {}
   \<and> peers (connect node_init env_surrogate addr0) = {}"
proof -
  have f: "send_key env_surrogate = IoOk" "tls env_surrogate = IoOk"
    "reply env_surrogate = RecvData (map of_nat surrogate_reply)"
    "\<not> depth_exceeded env_surrogate" "dh_draw env_surrogate = 0" "key_token env_surrogate = []"
    "conn_id env_surrogate = 7"
    by (simp_all add: env_surrogate_def env_not_json_def)
  have p: "py_print (PStr [0xD800]) = Inl UnicodeEncodeError"
    by (simp add: py_print_def valid_utf8_def is_scalar_def)
  have a: "exchange_keys node_init env_surrogate peer0 =
      (node_init\<lparr>manager := \<lparr>peer_keys = [KStr peer0 \<mapsto> \<lparr>shared_key = sha256 (map of_nat (py_str_int (4 ^ 1 mod P)))\<rparr>],
                               peer_dh = [KStr peer0 \<mapsto> (DiffieHellman_init 0)\<lparr>shared_secret := Some (4 ^ 1 mod P)\<rparr>]\<rparr>\<rparr>,
       Inl UnicodeEncodeError)"
    by (simp add: exchange_keys_def f decode_utf8_ascii [OF surrogate_ascii] loads_surrogate
        py_getitem_def py_get_def p initiate_key_exchange_def complete_key_exchange_def
        compute_shared_secret_int Let_def node_init_def SecureConnectionManager_init_def
        DiffieHellman_init_def MessageSecurity_init_def length_sha256 u_def)
  have lo: "fst addr0 \<noteq> u ''127.0.0.1''" "fst addr0 \<noteq> u ''127.0.1.1''"
    by (simp_all add: addr0_def u_def)
  have c: "connect node_init env_surrogate addr0 =
      connect_failed (fst (exchange_keys node_init env_surrogate peer0)) 7 UnicodeEncodeError"
    by (simp add: connect_def lo f(2,7) tuple_to_socket_addr0 a Let_def)
  show ?thesis
    unfolding c unfolding a
    by (simp add: connect_failed_def node_init_def)
qed

lemma connect_after_raise:
  assumes "fst addr \<noteq> u ''127.0.0.1''" and "fst addr \<noteq> u ''127.0.1.1''"
    and "tls e = IoOk" and "snd (exchange_keys w e (tuple_to_socket addr)) = Inl x"
  shows "connect w e addr =
           connect_failed (fst (exchange_keys w e (tuple_to_socket addr))) (conn_id e) x"
proof -
  obtain w1 where ex: "exchange_keys w e (tuple_to_socket addr) = (w1, Inl x)"
    using assms(4) by (cases "exchange_keys w e (tuple_to_socket addr)") auto
  show ?thesis
    using assms(1,2,3) by (simp add: connect_def Let_def ex)
qed

lemma connect_failed_frame:
  "manager (connect_failed w c x) = manager w"
  "concount (connect_failed w c x) = concount w"
  "peers (connect_failed w c x) = peers w"
  "c \<notin> connections w \<Longrightarrow> connections (connect_failed w c x) = connections w"
  by (simp_all add: connect_failed_def)

text \<open>
  C4 as amended. For a target that is not a loopback address, a TLS connect that
  succeeds and a new socket: if \<open>_exchange_keys\<close> raises, \<open>connect\<close> leaves the connection
  set, its counter and the peer registry as they were. The session registry is not rolled
  back: \<open>peer_dh\<close> holds for the peer the key pair generated by this attempt, the entries
  of every other peer in \<open>peer_dh\<close> and \<open>peer_keys\<close> are as they were, and the whole of
  \<open>peer_keys\<close> is as it was when the exception is not UnicodeEncodeError.
\<close>

theorem connect_aborts_on_failed_exchange:
  assumes "fst addr \<noteq> u ''127.0.0.1''" and "fst addr \<noteq> u ''127.0.1.1''"
    and "tls e = IoOk" and "conn_id e \<notin> connections w"
    and "snd (exchange_keys w e (tuple_to_socket addr)) = Inl x"
  shows "connections (connect w e addr) = connections w
       \<and> concount (connect w e addr) = concount w
       \<and> peers (connect w e addr) = peers w
       \<and> map_option private_key
            (peer_dh (manager (connect w e addr)) (KStr (tuple_to_socket addr))) =
           Some (dh_draw e + 1)
       \<and> map_option public_key
            (peer_dh (manager (connect w e addr)) (KStr (tuple_to_socket addr))) =
           Some (G ^ (dh_draw e + 1) mod P)
       \<and> (peer_dh (manager (connect w e addr)))(KStr (tuple_to_socket addr) := None) =
           (peer_dh (manager w))(KStr (tuple_to_socket addr) := None)
       \<and> (peer_keys (manager (connect w e addr)))(KStr (tuple_to_socket addr) := None) =
           (peer_keys (manager w))(KStr (tuple_to_socket addr) := None)
       \<and> (x \<noteq> UnicodeEncodeError \<longrightarrow>
            peer_keys (manager (connect w e addr)) = peer_keys (manager w))"
proof -
  let ?pa = "tuple_to_socket addr"
  let ?w1 = "fst (exchange_keys w e ?pa)"
  note c = connect_after_raise [OF assms(1,2,3,5)]
  have fresh: "conn_id e \<notin> connections ?w1"
    using assms(4) by (simp add: exchange_keys_frame)
  have m: "manager (connect w e addr) = manager ?w1"
    by (simp add: c connect_failed_frame)
  have "connections (connect w e addr) = connections w"
    "concount (connect w e addr) = concount w"
    "peers (connect w e addr) = peers w"
    using assms(4) by (simp_all add: c connect_failed_frame exchange_keys_frame)
  moreover have "x \<noteq> UnicodeEncodeError \<longrightarrow>
      peer_keys (manager (connect w e addr)) = peer_keys (manager w)"
    unfolding m using exchange_keys_raised_keys [OF assms(5)] by blast
  ultimately show ?thesis
    unfolding m
    using exchange_keys_dh [of w e ?pa] exchange_keys_others [of w e ?pa]
    by blast
qed

theorem connect_aborts_on_failed_exchange_witness:
  "fst addr0 \<noteq> u ''127.0.0.1'' \<and> fst addr0 \<noteq> u ''127.0.1.1''
   \<and> tls env_not_json = IoOk \<and> conn_id env_not_json \<notin> connections node_init
   \<and> snd (exchange_keys node_init env_not_json (tuple_to_socket addr0)) = Inl JSONDecodeError
   \<and> connections (connect node_init env_not_json addr0) = {}
   \<and> concount (connect node_init env_not_json addr0) = 0
   \<and> peers (connect node_init env_not_json addr0) = {}
   \<and> map_option private_key
        (peer_dh (manager (connect node_init env_not_json addr0)) (KStr (tuple_to_socket addr0))) =
       Some 1
   \<and> peer_keys (manager (connect node_init env_not_json addr0)) = Map.empty"
proof -
  have lo: "fst addr0 \<noteq> u ''127.0.0.1''" "fst addr0 \<noteq> u ''127.0.1.1''"
    by (simp_all add: addr0_def u_def)
  have t: "tls env_not_json = IoOk" "conn_id env_not_json \<notin> connections node_init"
    by (simp_all add: env_not_json_def node_init_def)
  have r: "snd (exchange_keys node_init env_not_json (tuple_to_socket addr0)) = Inl JSONDecodeError"
    by (simp add: exchange_keys_def env_not_json_def Let_def decode_utf8_ascii [OF oops_ascii]
        loads_oops)
  have d: "dh_draw env_not_json = 0"
    by (simp add: env_not_json_def)
  from connect_aborts_on_failed_exchange [OF lo t r] lo t r show ?thesis
    by (simp add: d node_init_def SecureConnectionManager_init_def del: map_option_eq_Some)
qed

end
